theory Spec2Isabelle
  imports Complex_Main "HOL-Library.Word" "HOL-Library.Sublist"
begin

unbundle bit_operations_syntax

section \<open>Python values and exceptions\<close>

text \<open>
  Every \<^verbatim>\<open>raise\<close> of the source, and every exception a library call of the source can
  raise, is a value of \<open>exn\<close>; a function that can raise returns \<open>exn + 'a\<close> with
  \<open>Inl\<close> for the exception. \<open>ModbusError\<close> stands for what minimalmodbus raises on a
  failed or timed-out transaction, \<open>StructError\<close> for \<^verbatim>\<open>struct.error\<close>.
\<close>

datatype exn =
    AttributeError | RuntimeError | ValueError | TypeError | KeyError
  | StructError | ModbusError | KeyboardInterrupt

text \<open>
  A Python float is a double; no function of the source computes with one, so a float is
  kept by where it came from. \<open>F32 w\<close> is the double that has the sign, the exponent and
  the mantissa of the single-precision pattern \<open>w\<close> (for a NaN pattern: the NaN with the
  same sign, quiet bit and payload); these are the doubles that are representable in single
  precision, which the codec is for. \<open>Dec q\<close> is the float that \<^verbatim>\<open>float(text)\<close> gives for a
  decimal text of exact value \<open>q\<close>, which is also the float that the same decimal literal
  denotes in a Python program.
\<close>

datatype pyfloat = F32 "32 word" | Dec rat

datatype pyval = PyNone | PyStr string | PyFloat pyfloat

section \<open>vogtlin\_mfc.py: the register float codec\<close>

text \<open>
  The conversion between a double and a single, in either direction, turns a signalling
  NaN (exponent all ones, mantissa not zero, bit 22 clear) into the quiet NaN with bit 22
  set and leaves every other single-representable value as it is.
\<close>

definition signalling :: "32 word \<Rightarrow> bool" where
  "signalling w =
     (w AND 0x7F800000 = 0x7F800000 \<and> w AND 0x007FFFFF \<noteq> 0 \<and> w AND 0x00400000 = 0)"

definition quiet :: "32 word \<Rightarrow> 32 word" where
  "quiet w = (if signalling w then w OR 0x00400000 else w)"

text \<open>The four bytes of a 32-bit pattern, most significant byte first, and back.\<close>

definition bytes_of :: "32 word \<Rightarrow> 8 word list" where
  "bytes_of w = [ucast (drop_bit 24 w), ucast (drop_bit 16 w), ucast (drop_bit 8 w), ucast w]"

definition pattern_of :: "8 word \<Rightarrow> 8 word \<Rightarrow> 8 word \<Rightarrow> 8 word \<Rightarrow> 32 word" where
  "pattern_of b0 b1 b2 b3 =
     push_bit 24 (ucast b0) OR push_bit 16 (ucast b1) OR push_bit 8 (ucast b2) OR ucast b3"

text \<open>
  \<^verbatim>\<open>struct.pack('>f', value)\<close> for the float \<open>F32 w\<close>: the double is converted to a single,
  whose four bytes are written most significant first. A double that is not representable
  in single precision is rounded, or rejected with OverflowError when it is too large; such
  arguments are outside this model, which takes the value by its single-precision pattern.
\<close>

definition pack_f :: "32 word \<Rightarrow> 8 word list" where
  "pack_f w = bytes_of (quiet w)"

text \<open>
  \<^verbatim>\<open>struct.unpack('>f', raw_bytes)[0]\<close>: the single with these four bytes is converted to
  a double; any buffer that is not four bytes long raises.
\<close>

definition unpack_f :: "8 word list \<Rightarrow> exn + 32 word" where
  "unpack_f bs = (case bs of
       [b0, b1, b2, b3] \<Rightarrow> Inr (quiet (pattern_of b0 b1 b2 b3))
     | _ \<Rightarrow> Inl StructError)"

text \<open>
  \<^verbatim>\<open>struct.pack('>HH', *regs)\<close>: two unsigned 16-bit values, each high byte first; any
  other number of arguments raises.
\<close>

definition pack_HH :: "16 word list \<Rightarrow> exn + 8 word list" where
  "pack_HH regs = (case regs of
       [r0, r1] \<Rightarrow> Inr [ucast (drop_bit 8 r0), ucast r0, ucast (drop_bit 8 r1), ucast r1]
     | _ \<Rightarrow> Inl StructError)"

text \<open>\<^verbatim>\<open>list(struct.unpack('>HH', raw_bytes))\<close>.\<close>

definition unpack_HH :: "8 word list \<Rightarrow> exn + 16 word list" where
  "unpack_HH bs = (case bs of
       [b0, b1, b2, b3] \<Rightarrow>
         Inr [push_bit 8 (ucast b0) OR ucast b1, push_bit 8 (ucast b2) OR ucast b3]
     | _ \<Rightarrow> Inl StructError)"

text \<open>
  \<^verbatim>\<open>_write_float\<close> up to the call of \<^verbatim>\<open>write_registers\<close>: the register list it hands
  over. The value is given by its single-precision pattern.
\<close>

definition write_float_regs :: "32 word \<Rightarrow> bool \<Rightarrow> exn + 16 word list" where
  "write_float_regs v swap =
     (case unpack_HH (pack_f v) of
        Inl e \<Rightarrow> Inl e
      | Inr regs \<Rightarrow> Inr (if swap then rev regs else regs))"

text \<open>
  \<^verbatim>\<open>_read_float\<close> from the return of \<^verbatim>\<open>read_registers\<close> on: the float it returns for
  the register list it was given.
\<close>

definition read_float_regs :: "16 word list \<Rightarrow> bool \<Rightarrow> exn + 32 word" where
  "read_float_regs regs swap =
     (case pack_HH (if swap then rev regs else regs) of
        Inl e \<Rightarrow> Inl e
      | Inr raw_bytes \<Rightarrow> unpack_f raw_bytes)"

section \<open>dewmaster.py: the line pattern\<close>

text \<open>
  Texts are lists of Isabelle characters, read as the code points below 256; the
  instrument sends ASCII. The character classes are those of Python's \<^verbatim>\<open>re\<close> on
  \<^verbatim>\<open>str\<close> patterns, cut down to that range: \<^verbatim>\<open>\d\<close> is \<open>0\<close> to \<open>9\<close>, \<^verbatim>\<open>\s\<close> is the twelve
  white-space characters, \<^verbatim>\<open>.\<close> is every character but the line feed, and \<open>NumCh\<close> is the
  class \<^verbatim>\<open>[-\d.]\<close>.
\<close>

datatype cclass = Lit char | Digit | Space | AnyCh | NumCh

definition digit_chars :: string where
  "digit_chars = ''0123456789''"

definition space_chars :: string where
  "space_chars = [CHR 0x09, CHR 0x0A, CHR 0x0B, CHR 0x0C, CHR 0x0D, CHR 0x1C, CHR 0x1D,
                  CHR 0x1E, CHR 0x1F, CHR '' '', CHR 0x85, CHR 0xA0]"

fun cmatch :: "cclass \<Rightarrow> char \<Rightarrow> bool" where
  "cmatch (Lit a) c = (c = a)"
| "cmatch Digit c = (c \<in> set digit_chars)"
| "cmatch Space c = (c \<in> set space_chars)"
| "cmatch AnyCh c = (c \<noteq> CHR 0x0A)"
| "cmatch NumCh c = (c = CHR ''-'' \<or> c \<in> set digit_chars \<or> c = CHR ''.'')"

text \<open>
  The constructs \<^verbatim>\<open>data_pattern\<close> is written with: one character of a class, the greedy
  \<^verbatim>\<open>*\<close> and the lazy \<^verbatim>\<open>*?\<close> of a class, concatenation and a named group. \<^verbatim>\<open>x+\<close> is
  \<^verbatim>\<open>xx*\<close> and \<^verbatim>\<open>\d{2}\<close> is \<^verbatim>\<open>\d\d\<close>.
\<close>

datatype re = Eps | One cclass | Star cclass | LazyStar cclass | Seq re re | Group string re

type_synonym caps = "(string \<times> string) list"

text \<open>
  The matcher is the backtracking one: \<open>rmatch r s cs\<close> lists, in the order in which the
  engine tries them, every way \<open>r\<close> can match a prefix of \<open>s\<close>, each as the text left over
  and the groups captured so far (latest first). The greedy star tries the longest run
  first, the lazy star the empty run first.
\<close>

fun star_greedy :: "cclass \<Rightarrow> string \<Rightarrow> string list" where
  "star_greedy c [] = [[]]"
| "star_greedy c (x # xs) = (if cmatch c x then star_greedy c xs else []) @ [x # xs]"

fun star_lazy :: "cclass \<Rightarrow> string \<Rightarrow> string list" where
  "star_lazy c [] = [[]]"
| "star_lazy c (x # xs) = (x # xs) # (if cmatch c x then star_lazy c xs else [])"

fun rmatch :: "re \<Rightarrow> string \<Rightarrow> caps \<Rightarrow> (string \<times> caps) list" where
  "rmatch Eps s cs = [(s, cs)]"
| "rmatch (One c) s cs =
     (case s of [] \<Rightarrow> [] | x # xs \<Rightarrow> if cmatch c x then [(xs, cs)] else [])"
| "rmatch (Star c) s cs = map (\<lambda>rest. (rest, cs)) (star_greedy c s)"
| "rmatch (LazyStar c) s cs = map (\<lambda>rest. (rest, cs)) (star_lazy c s)"
| "rmatch (Seq a b) s cs = concat (map (\<lambda>(s', cs'). rmatch b s' cs') (rmatch a s cs))"
| "rmatch (Group n r) s cs =
     map (\<lambda>(s', cs'). (s', (n, take (length s - length s') s) # cs')) (rmatch r s cs)"

text \<open>
  \<^verbatim>\<open>pattern.search(line)\<close>: the first way to match at the leftmost position that has one;
  the result is the captured groups.
\<close>

fun search :: "re \<Rightarrow> string \<Rightarrow> caps option" where
  "search r [] = (case rmatch r [] [] of [] \<Rightarrow> None | (rest, cs) # _ \<Rightarrow> Some cs)"
| "search r (x # xs) =
     (case rmatch r (x # xs) [] of [] \<Rightarrow> search r xs | (rest, cs) # _ \<Rightarrow> Some cs)"

definition seqs :: "re list \<Rightarrow> re" where
  "seqs rs = foldr Seq rs Eps"

definition plus :: "cclass \<Rightarrow> re" where
  "plus c = Seq (One c) (Star c)"

definition lits :: "string \<Rightarrow> re" where
  "lits s = seqs (map (\<lambda>c. One (Lit c)) s)"

definition digits2 :: re where
  "digits2 = Seq (One Digit) (One Digit)"

text \<open>\<^verbatim>\<open>.*?DP\s*=\s*(?P<dp>[-\d.]+)\<close>, and the same for the other two labels.\<close>

definition field :: "string \<Rightarrow> string \<Rightarrow> re" where
  "field label name =
     seqs [LazyStar AnyCh, lits label, Star Space, One (Lit (CHR ''='')), Star Space,
           Group name (plus NumCh)]"

text \<open>\<^verbatim>\<open>\s*C\<close>\<close>

definition unit_C :: re where
  "unit_C = Seq (Star Space) (One (Lit (CHR ''C'')))"

definition data_pattern :: re where
  "data_pattern =
     seqs [Group ''date''
             (seqs [digits2, One (Lit (CHR ''/'')), digits2, One (Lit (CHR ''/'')), digits2]),
           plus Space,
           Group ''time''
             (seqs [digits2, One (Lit (CHR '':'')), digits2, One (Lit (CHR '':'')), digits2]),
           field ''DP'' ''dp'', unit_C,
           field ''AT'' ''at'', unit_C,
           field ''RH'' ''rh'']"

section \<open>dewmaster.py: from a matched line to the channels\<close>

definition is_digit :: "char \<Rightarrow> bool" where
  "is_digit c = (c \<in> set digit_chars)"

definition digit_val :: "char \<Rightarrow> nat" where
  "digit_val c = of_char c - 48"

definition digits_val :: "string \<Rightarrow> nat" where
  "digits_val ds = foldl (\<lambda>a c. 10 * a + digit_val c) 0 ds"

text \<open>
  \<^verbatim>\<open>float(v)\<close> on a text a group of the pattern can capture, that is a text over the
  characters of \<^verbatim>\<open>[-\d.]\<close>: an optional minus sign, then digits with at most one point
  and at least one digit; every other such text raises ValueError. The float is the
  one of the exact decimal value (the minus sign of a zero is not kept).
\<close>

definition py_float :: "string \<Rightarrow> exn + pyfloat" where
  "py_float s =
     (let neg = (case s of [] \<Rightarrow> False | c # _ \<Rightarrow> c = CHR ''-'');
          body = (if neg then tl s else s);
          sgn = (if neg then - 1 else 1 :: rat);
          ip = takeWhile is_digit body;
          rest = dropWhile is_digit body
      in case rest of
           [] \<Rightarrow> if ip = [] then Inl ValueError else Inr (Dec (sgn * of_nat (digits_val ip)))
         | c # fp \<Rightarrow>
             if c = CHR ''.'' \<and> list_all is_digit fp \<and> (ip \<noteq> [] \<or> fp \<noteq> [])
             then Inr (Dec (sgn * of_nat (digits_val (ip @ fp)) / 10 ^ length fp))
             else Inl ValueError)"

text \<open>\<^verbatim>\<open>m.groupdict()\<close>: every named group of the pattern, in the pattern's order.\<close>

definition group_names :: "string list" where
  "group_names = [''date'', ''time'', ''dp'', ''at'', ''rh'']"

definition groupdict :: "caps \<Rightarrow> (string \<times> string option) list" where
  "groupdict cs = map (\<lambda>n. (n, map_of cs n)) group_names"

text \<open>
  The dictionary comprehension of \<^verbatim>\<open>poll\<close>:
  \<^verbatim>\<open>{k: (float(v) if k in ("dp", "at", "rh") else v) for k, v in m.groupdict().items()}\<close>.
  A dictionary is an association list in insertion order.
\<close>

definition convert_item :: "string \<Rightarrow> string option \<Rightarrow> exn + pyval" where
  "convert_item k v =
     (if k \<in> set [''dp'', ''at'', ''rh'']
      then (case v of
              None \<Rightarrow> Inl TypeError
            | Some t \<Rightarrow> (case py_float t of Inl e \<Rightarrow> Inl e | Inr f \<Rightarrow> Inr (PyFloat f)))
      else Inr (case v of None \<Rightarrow> PyNone | Some t \<Rightarrow> PyStr t))"

fun convert :: "(string \<times> string option) list \<Rightarrow> exn + (string \<times> pyval) list" where
  "convert [] = Inr []"
| "convert ((k, v) # kvs) =
     (case convert_item k v of
        Inl e \<Rightarrow> Inl e
      | Inr x \<Rightarrow> (case convert kvs of Inl e \<Rightarrow> Inl e | Inr d \<Rightarrow> Inr ((k, x) # d)))"

text \<open>
  The body of the loop of \<^verbatim>\<open>poll\<close> for one line: \<open>Inr None\<close> when the pattern does not
  match (the loop goes on to the next line), the channels when it does, and the
  exception when a conversion raises.
\<close>

definition parse_line :: "string \<Rightarrow> exn + (string \<times> pyval) list option" where
  "parse_line line =
     (case search data_pattern line of
        None \<Rightarrow> Inr None
      | Some cs \<Rightarrow> (case convert (groupdict cs) of Inl e \<Rightarrow> Inl e | Inr d \<Rightarrow> Inr (Some d)))"

text \<open>\<^verbatim>\<open>for line in lines: ... return data\<close>, then \<^verbatim>\<open>return None\<close>.\<close>

fun poll_scan :: "string list \<Rightarrow> exn + (string \<times> pyval) list option" where
  "poll_scan [] = Inr None"
| "poll_scan (line # lines) =
     (case parse_line line of
        Inl e \<Rightarrow> Inl e
      | Inr (Some d) \<Rightarrow> Inr (Some d)
      | Inr None \<Rightarrow> poll_scan lines)"

section \<open>The drivers\<close>

text \<open>
  A configuration value is a port name or a number. \<open>port_opens\<close> of the environment
  says which ports can be opened.
\<close>

datatype cfgval = CStr string | CInt int

type_synonym config = "string \<rightharpoonup> cfgval"

definition config_get :: "config \<Rightarrow> string \<Rightarrow> cfgval \<Rightarrow> cfgval" where
  "config_get cfg k d = (case cfg k of None \<Rightarrow> d | Some v \<Rightarrow> v)"

subsection \<open>vogtlin\_mfc.py\<close>

text \<open>
  \<open>instrument\<close> says whether the attribute holds a minimalmodbus instrument (it is None
  until \<^verbatim>\<open>connect\<close> has created one).
\<close>

record VogtlinMFC =
  mfc_port :: cfgval
  mfc_address :: cfgval
  mfc_name :: string
  instrument :: bool

text \<open>
  \<^verbatim>\<open>VogtlinMFC.connect\<close>: creating the instrument is the statement of the \<^verbatim>\<open>try\<close> block
  that fails when the port cannot be opened; every exception is caught and turned into
  False.
\<close>

definition VogtlinMFC_connect :: "(cfgval \<Rightarrow> bool) \<Rightarrow> VogtlinMFC \<Rightarrow> VogtlinMFC \<times> bool" where
  "VogtlinMFC_connect opens m =
     (if opens (mfc_port m) then (m\<lparr>instrument := True\<rparr>, True) else (m, False))"

definition REG :: "(string \<times> nat) list" where
  "REG = [(''flow'', 0x0000), (''temperature'', 0x0002), (''total_flow'', 0x0004),
          (''setpoint'', 0x0006), (''analog_input'', 0x0008), (''valve_signal'', 0x000A),
          (''alarm'', 0x000C), (''error'', 0x000D), (''control_function'', 0x000E),
          (''ramp'', 0x000F)]"

text \<open>
  What \<^verbatim>\<open>instrument.read_registers(address, 2)\<close> does during one cycle: the registers
  the device answers with, or the exception minimalmodbus raises. What
  \<^verbatim>\<open>instrument.write_registers(address, regs)\<close> does: nothing, or the exception.
\<close>

type_synonym bus = "nat \<Rightarrow> exn + 16 word list"

type_synonym wbus = "nat \<Rightarrow> 16 word list \<Rightarrow> exn + unit"

definition VogtlinMFC_read_float :: "VogtlinMFC \<Rightarrow> bus \<Rightarrow> nat \<Rightarrow> bool \<Rightarrow> exn + pyfloat" where
  "VogtlinMFC_read_float m b address swap =
     (if \<not> instrument m then Inl AttributeError
      else case b address of
             Inl e \<Rightarrow> Inl e
           | Inr regs \<Rightarrow>
               (case read_float_regs regs swap of Inl e \<Rightarrow> Inl e | Inr w \<Rightarrow> Inr (F32 w)))"

definition VogtlinMFC_write_float ::
  "VogtlinMFC \<Rightarrow> wbus \<Rightarrow> nat \<Rightarrow> 32 word \<Rightarrow> bool \<Rightarrow> exn + unit" where
  "VogtlinMFC_write_float m wb address v swap =
     (case write_float_regs v swap of
        Inl e \<Rightarrow> Inl e
      | Inr regs \<Rightarrow> if \<not> instrument m then Inl AttributeError else wb address regs)"

definition VogtlinMFC_get_flow :: "VogtlinMFC \<Rightarrow> bus \<Rightarrow> exn + pyfloat" where
  "VogtlinMFC_get_flow m b =
     (case map_of REG ''flow'' of
        None \<Rightarrow> Inl KeyError
      | Some a \<Rightarrow> VogtlinMFC_read_float m b a False)"

definition VogtlinMFC_get_setpoint :: "VogtlinMFC \<Rightarrow> bus \<Rightarrow> exn + pyfloat" where
  "VogtlinMFC_get_setpoint m b =
     (case map_of REG ''setpoint'' of
        None \<Rightarrow> Inl KeyError
      | Some a \<Rightarrow> VogtlinMFC_read_float m b a False)"

text \<open>\<^verbatim>\<open>set_flow_setpoint\<close> has no return statement: it returns None when the write went through.\<close>

definition VogtlinMFC_set_flow_setpoint :: "VogtlinMFC \<Rightarrow> wbus \<Rightarrow> 32 word \<Rightarrow> exn + pyval" where
  "VogtlinMFC_set_flow_setpoint m wb v =
     (case map_of REG ''setpoint'' of
        None \<Rightarrow> Inl KeyError
      | Some a \<Rightarrow>
          (case VogtlinMFC_write_float m wb a v False of
             Inl e \<Rightarrow> Inl e
           | Inr u \<Rightarrow> Inr PyNone))"

text \<open>
  Everything an instance of \<^verbatim>\<open>VogtlinMFC\<close> has: the class attribute, the methods and
  the attributes \<^verbatim>\<open>__init__\<close> sets. Looking up any other name raises AttributeError.
\<close>

definition VogtlinMFC_attrs :: "string list" where
  "VogtlinMFC_attrs =
     [''REG'', ''__init__'', ''__enter__'', ''__exit__'', ''connect'', ''disconnect'',
      ''_read_float'', ''_write_float'', ''get_flow'', ''get_temperature'', ''get_total_flow'',
      ''get_valve_signal'', ''get_setpoint'', ''set_flow_setpoint'', ''get_status'',
      ''port'', ''baudrate'', ''address'', ''name'', ''instrument'']"

subsection \<open>dewmaster.py\<close>

text \<open>\<open>ser\<close> is None, or the serial object with its \<^verbatim>\<open>is_open\<close>.\<close>

record DewMaster =
  dm_port :: cfgval
  dm_baudrate :: cfgval
  ser :: "bool option"

text \<open>
  \<^verbatim>\<open>DewMaster.connect\<close>: True when the port opens; otherwise the exception is caught and
  RuntimeError is raised in its place.
\<close>

definition DewMaster_connect :: "(cfgval \<Rightarrow> bool) \<Rightarrow> DewMaster \<Rightarrow> DewMaster \<times> (exn + bool)" where
  "DewMaster_connect opens d =
     (if opens (dm_port d) then (d\<lparr>ser := Some True\<rparr>, Inr True) else (d, Inl RuntimeError))"

definition DewMaster_write :: "DewMaster \<Rightarrow> exn + unit" where
  "DewMaster_write d = (if ser d = Some True then Inr () else Inl RuntimeError)"

definition is_space :: "char \<Rightarrow> bool" where
  "is_space c = (c \<in> set space_chars)"

definition strip :: "string \<Rightarrow> string" where
  "strip s = rev (dropWhile is_space (rev (dropWhile is_space s)))"

text \<open>
  \<^verbatim>\<open>_read_lines\<close>: \<open>raw\<close> is what the calls of \<^verbatim>\<open>readline\<close> gave, decoded, during the
  window; the lines kept are the stripped ones that are not empty.
\<close>

definition DewMaster_read_lines :: "DewMaster \<Rightarrow> string list \<Rightarrow> string list" where
  "DewMaster_read_lines d raw =
     (if ser d = None then [] else filter (\<lambda>l. l \<noteq> []) (map strip raw))"

definition DewMaster_poll :: "DewMaster \<Rightarrow> string list \<Rightarrow> exn + (string \<times> pyval) list option" where
  "DewMaster_poll d raw =
     (case DewMaster_write d of
        Inl e \<Rightarrow> Inl e
      | Inr u \<Rightarrow> poll_scan (DewMaster_read_lines d raw))"

subsection \<open>The temperature probe\<close>

text \<open>
  The class \<^verbatim>\<open>TemperatureProbe\<close> is imported by controller.py from a module that is not
  part of the sources. Its objects are kept as the arguments of their construction, and
  what their methods return or raise is a parameter of the environment.
\<close>

record TemperatureProbe =
  tp_port :: cfgval
  tp_baudrate :: cfgval

section \<open>controller.py\<close>

text \<open>
  One Reading: the dictionary \<^verbatim>\<open>data\<close> of \<^verbatim>\<open>read_all_sensors\<close>, whose nine keys are fixed.
  The time stamp is the clock reading (seconds) rather than its ISO text.
\<close>

record Reading =
  timestamp :: rat
  dry_flow :: pyval
  dry_setpoint :: pyval
  wet_flow :: pyval
  wet_setpoint :: pyval
  cell_temp :: pyval
  ambient_temp :: pyval
  dewpoint_temp :: pyval
  relative_humidity :: pyval

text \<open>
  The two collaborators, as far as the controller drives them: the logger keeps the field
  names of the started log and the rows written, the plotter its bounded buffer of points.
\<close>

record DataLogger =
  fieldnames :: "string list option"
  rows :: "Reading list"

definition start_new_log :: "DataLogger \<Rightarrow> string list \<Rightarrow> DataLogger" where
  "start_new_log lg fs = lg\<lparr>fieldnames := Some fs\<rparr>"

definition log_data :: "DataLogger \<Rightarrow> Reading \<Rightarrow> exn + DataLogger" where
  "log_data lg data =
     (case fieldnames lg of
        None \<Rightarrow> Inl ValueError
      | Some fs \<Rightarrow> if fs = [] then Inl ValueError else Inr (lg\<lparr>rows := rows lg @ [data]\<rparr>))"

record DynamicPlotter =
  max_points :: nat
  points :: "Reading list"
  is_running :: bool

definition add_data_point :: "DynamicPlotter \<Rightarrow> Reading \<Rightarrow> DynamicPlotter" where
  "add_data_point p data =
     (let ps = points p @ [data] in p\<lparr>points := drop (length ps - max_points p) ps\<rparr>)"

record Controller =
  config :: config
  running :: bool
  dry_mfc :: "VogtlinMFC option"
  wet_mfc :: "VogtlinMFC option"
  hygrometer :: "DewMaster option"
  t_probe :: "TemperatureProbe option"
  logger :: DataLogger
  plotter :: DynamicPlotter

definition log_fields :: "string list" where
  "log_fields = [''timestamp'', ''dry_flow'', ''dry_setpoint'', ''wet_flow'', ''wet_setpoint'',
                 ''cell_temp'', ''ambient_temp'', ''dewpoint_temp'', ''relative_humidity'']"

text \<open>
  Everything an instance of \<^verbatim>\<open>Controller\<close> has: the attributes \<^verbatim>\<open>__init__\<close> sets and the
  methods.
\<close>

definition Controller_attrs :: "string list" where
  "Controller_attrs =
     [''config'', ''running'', ''dry_mfc'', ''wet_mfc'', ''hygrometer'', ''t_probe'', ''logger'',
      ''plotter'', ''log_fields'', ''__init__'', ''connect_devices'', ''disconnect_devices'',
      ''read_all_sensors'', ''set_flow_rates'', ''start_monitoring'', ''stop'']"

text \<open>The lines the controller prints about a device.\<close>

datatype device = DryMFC | WetMFC | Hygrometer | TProbe

datatype msg =
    Connecting device | ConnectFailed device | ConnectOK device
  | FlowSet device | FlowSetFailed device

subsection \<open>connect\_devices\<close>

record connect_env =
  port_opens :: "cfgval \<Rightarrow> bool"
  probe_connect :: "exn + bool"

text \<open>
  The state between two blocks of \<^verbatim>\<open>connect_devices\<close>: the controller, the lines printed
  so far and the local variable \<^verbatim>\<open>success\<close>.
\<close>

type_synonym cstate = "Controller \<times> msg list \<times> bool"

definition connect_dry :: "connect_env \<Rightarrow> cstate \<Rightarrow> cstate" where
  "connect_dry env = (\<lambda>(c, out, success).
     case config c ''dry_mfc_port'' of
       None \<Rightarrow> (c, out, success)
     | Some p \<Rightarrow>
         (let (m, ok) = VogtlinMFC_connect (port_opens env)
                 \<lparr>mfc_port = p, mfc_address = config_get (config c) ''dry_mfc_address'' (CInt 1),
                  mfc_name = ''Dry Air MFC'', instrument = False\<rparr>
          in (c\<lparr>dry_mfc := Some m\<rparr>,
              out @ [Connecting DryMFC, if ok then ConnectOK DryMFC else ConnectFailed DryMFC],
              if ok then success else False)))"

definition connect_wet :: "connect_env \<Rightarrow> cstate \<Rightarrow> cstate" where
  "connect_wet env = (\<lambda>(c, out, success).
     case config c ''wet_mfc_port'' of
       None \<Rightarrow> (c, out, success)
     | Some p \<Rightarrow>
         (let (m, ok) = VogtlinMFC_connect (port_opens env)
                 \<lparr>mfc_port = p, mfc_address = config_get (config c) ''wet_mfc_address'' (CInt 2),
                  mfc_name = ''Wet Air MFC'', instrument = False\<rparr>
          in (c\<lparr>wet_mfc := Some m\<rparr>,
              out @ [Connecting WetMFC, if ok then ConnectOK WetMFC else ConnectFailed WetMFC],
              if ok then success else False)))"

text \<open>
  The hygrometer block. When \<^verbatim>\<open>connect\<close> raises, the exception leaves
  \<^verbatim>\<open>connect_devices\<close>: there is no handler.
\<close>

definition connect_hygrometer :: "connect_env \<Rightarrow> cstate \<Rightarrow> Controller \<times> msg list \<times> (exn + bool)" where
  "connect_hygrometer env = (\<lambda>(c, out, success).
     case config c ''hygrometer_port'' of
       None \<Rightarrow> (c, out, Inr success)
     | Some p \<Rightarrow>
         (let (d, r) = DewMaster_connect (port_opens env)
                 \<lparr>dm_port = p, dm_baudrate = config_get (config c) ''hygrometer_baudrate'' (CInt 9600),
                  ser = None\<rparr>;
              c' = c\<lparr>hygrometer := Some d\<rparr>;
              out' = out @ [Connecting Hygrometer]
          in case r of
               Inl e \<Rightarrow> (c', out', Inl e)
             | Inr ok \<Rightarrow>
                 (c', out' @ [if ok then ConnectOK Hygrometer else ConnectFailed Hygrometer],
                  Inr (if ok then success else False))))"

text \<open>
  The probe block tests the key \<^verbatim>\<open>'t_probe'\<close> and then reads the key \<^verbatim>\<open>'t_probe_port'\<close>,
  which raises KeyError when it is absent.
\<close>

definition connect_t_probe :: "connect_env \<Rightarrow> cstate \<Rightarrow> Controller \<times> msg list \<times> (exn + bool)" where
  "connect_t_probe env = (\<lambda>(c, out, success).
     if config c ''t_probe'' = None then (c, out, Inr success)
     else case config c ''t_probe_port'' of
            None \<Rightarrow> (c, out, Inl KeyError)
          | Some p \<Rightarrow>
              (let c' = c\<lparr>t_probe := Some \<lparr>tp_port = p,
                            tp_baudrate = config_get (config c) ''t_probe_baudrate'' (CInt 9600)\<rparr>\<rparr>;
                   out' = out @ [Connecting TProbe]
               in case probe_connect env of
                    Inl e \<Rightarrow> (c', out', Inl e)
                  | Inr ok \<Rightarrow>
                      (c', out' @ [if ok then ConnectOK TProbe else ConnectFailed TProbe],
                       Inr (if ok then success else False))))"

definition connect_devices :: "connect_env \<Rightarrow> Controller \<Rightarrow> Controller \<times> msg list \<times> (exn + bool)" where
  "connect_devices env c =
     (case connect_hygrometer env (connect_wet env (connect_dry env (c, [], True))) of
        (c', out, Inl e) \<Rightarrow> (c', out, Inl e)
      | (c', out, Inr success) \<Rightarrow> connect_t_probe env (c', out, success))"

subsection \<open>read\_all\_sensors\<close>

text \<open>
  What the devices do during one cycle. The hygrometer object of the controller is of
  the class it imports under the name \<^verbatim>\<open>DewMasterHygrometer\<close>, which the sources do not
  define; their hygrometer driver is \<^verbatim>\<open>DewMaster\<close>, which has no method \<^verbatim>\<open>get_readings\<close>
  (on it the call raises AttributeError). What the call returns (None or a dictionary) or
  raises is therefore the parameter \<open>get_readings\<close>. In the same way \<open>get_temperature\<close>
  is what the probe's method returns or raises. \<open>busy\<close> is the time the cycle takes from
  its time stamp to its sleep, and \<open>interrupted\<close> says whether KeyboardInterrupt arrives
  during the sleep.
\<close>

record cycle_env =
  dry_bus :: bus
  wet_bus :: bus
  get_readings :: "exn + (string \<times> pyval) list option"
  get_temperature :: "exn + pyval"
  busy :: rat
  interrupted :: bool

definition dict_get :: "(string \<times> pyval) list \<Rightarrow> string \<Rightarrow> pyval" where
  "dict_get d k = (case map_of d k of None \<Rightarrow> PyNone | Some v \<Rightarrow> v)"

definition fresh_data :: "rat \<Rightarrow> Reading" where
  "fresh_data now =
     \<lparr>timestamp = now, dry_flow = PyNone, dry_setpoint = PyNone, wet_flow = PyNone,
      wet_setpoint = PyNone, cell_temp = PyNone, ambient_temp = PyNone,
      dewpoint_temp = PyNone, relative_humidity = PyNone\<rparr>"

definition read_dry_mfc :: "Controller \<Rightarrow> cycle_env \<Rightarrow> Reading \<Rightarrow> exn + Reading" where
  "read_dry_mfc c env data =
     (case dry_mfc c of
        None \<Rightarrow> Inr data
      | Some m \<Rightarrow>
          (case VogtlinMFC_get_flow m (dry_bus env) of
             Inl e \<Rightarrow> Inl e
           | Inr f \<Rightarrow>
               (case VogtlinMFC_get_setpoint m (dry_bus env) of
                  Inl e \<Rightarrow> Inl e
                | Inr sp \<Rightarrow> Inr (data\<lparr>dry_flow := PyFloat f, dry_setpoint := PyFloat sp\<rparr>))))"

definition read_wet_mfc :: "Controller \<Rightarrow> cycle_env \<Rightarrow> Reading \<Rightarrow> exn + Reading" where
  "read_wet_mfc c env data =
     (case wet_mfc c of
        None \<Rightarrow> Inr data
      | Some m \<Rightarrow>
          (case VogtlinMFC_get_flow m (wet_bus env) of
             Inl e \<Rightarrow> Inl e
           | Inr f \<Rightarrow>
               (case VogtlinMFC_get_setpoint m (wet_bus env) of
                  Inl e \<Rightarrow> Inl e
                | Inr sp \<Rightarrow> Inr (data\<lparr>wet_flow := PyFloat f, wet_setpoint := PyFloat sp\<rparr>))))"

text \<open>\<^verbatim>\<open>if readings:\<close> is false for None and for the empty dictionary.\<close>

definition read_hygrometer :: "Controller \<Rightarrow> cycle_env \<Rightarrow> Reading \<Rightarrow> exn + Reading" where
  "read_hygrometer c env data =
     (case hygrometer c of
        None \<Rightarrow> Inr data
      | Some h \<Rightarrow>
          (case get_readings env of
             Inl e \<Rightarrow> Inl e
           | Inr None \<Rightarrow> Inr data
           | Inr (Some readings) \<Rightarrow>
               if readings = [] then Inr data
               else Inr (data\<lparr>ambient_temp := dict_get readings ''ambient_temp'',
                              dewpoint_temp := dict_get readings ''dewpoint_temp'',
                              relative_humidity := dict_get readings ''relative_humidity''\<rparr>)))"

text \<open>
  The probe block tests \<^verbatim>\<open>self.t_probe\<close> and then reads \<^verbatim>\<open>self.T_probe\<close>, an attribute
  lookup on the controller.
\<close>

definition read_t_probe :: "Controller \<Rightarrow> cycle_env \<Rightarrow> Reading \<Rightarrow> exn + Reading" where
  "read_t_probe c env data =
     (case t_probe c of
        None \<Rightarrow> Inr data
      | Some p \<Rightarrow>
          if ''T_probe'' \<in> set Controller_attrs
          then (case get_temperature env of
                  Inl e \<Rightarrow> Inl e
                | Inr v \<Rightarrow> Inr (data\<lparr>cell_temp := v\<rparr>))
          else Inl AttributeError)"

definition read_all_sensors :: "Controller \<Rightarrow> cycle_env \<Rightarrow> rat \<Rightarrow> exn + Reading" where
  "read_all_sensors c env now =
     (case read_dry_mfc c env (fresh_data now) of
        Inl e \<Rightarrow> Inl e
      | Inr d1 \<Rightarrow>
          (case read_wet_mfc c env d1 of
             Inl e \<Rightarrow> Inl e
           | Inr d2 \<Rightarrow>
               (case read_hygrometer c env d2 of
                  Inl e \<Rightarrow> Inl e
                | Inr d3 \<Rightarrow> read_t_probe c env d3)))"

subsection \<open>set\_flow\_rates\<close>

text \<open>
  \<^verbatim>\<open>self.dry_mfc.set_flow(dry_flow)\<close> first looks the attribute \<^verbatim>\<open>set_flow\<close> up on the
  \<^verbatim>\<open>VogtlinMFC\<close> object. What the call itself would return or raise, had the class such
  a method, is the parameter \<open>set_flow\<close> of the environment.
\<close>

definition VogtlinMFC_getattr :: "string \<Rightarrow> exn + unit" where
  "VogtlinMFC_getattr name = (if name \<in> set VogtlinMFC_attrs then Inr () else Inl AttributeError)"

record flow_env =
  set_flow :: "device \<Rightarrow> exn + pyval"

fun truthy :: "pyval \<Rightarrow> bool" where
  "truthy PyNone = False"
| "truthy (PyStr s) = (s \<noteq> [])"
| "truthy (PyFloat (Dec q)) = (q \<noteq> 0)"
| "truthy (PyFloat (F32 w)) = (w \<noteq> 0 \<and> w \<noteq> 0x80000000)"

definition set_flow_block ::
  "device \<Rightarrow> flow_env \<Rightarrow> 32 word option \<Rightarrow> VogtlinMFC option \<Rightarrow> exn + msg list" where
  "set_flow_block dev env flow mfc =
     (if flow \<noteq> None \<and> mfc \<noteq> None
      then (case VogtlinMFC_getattr ''set_flow'' of
              Inl e \<Rightarrow> Inl e
            | Inr u \<Rightarrow>
                (case set_flow env dev of
                   Inl e \<Rightarrow> Inl e
                 | Inr r \<Rightarrow> Inr [if truthy r then FlowSet dev else FlowSetFailed dev]))
      else Inr [])"

text \<open>
  \<open>dry\<close> and \<open>wet\<close> are the arguments \<^verbatim>\<open>dry_flow\<close> and \<^verbatim>\<open>wet_flow\<close>, None or a flow
  given by its single-precision pattern. The result is the lines printed and, when an
  exception leaves the function, the exception.
\<close>

definition set_flow_rates ::
  "Controller \<Rightarrow> flow_env \<Rightarrow> 32 word option \<Rightarrow> 32 word option \<Rightarrow> msg list \<times> (exn + unit)" where
  "set_flow_rates c env dry wet =
     (case set_flow_block DryMFC env dry (dry_mfc c) of
        Inl e \<Rightarrow> ([], Inl e)
      | Inr out1 \<Rightarrow>
          (case set_flow_block WetMFC env wet (wet_mfc c) of
             Inl e \<Rightarrow> (out1, Inl e)
           | Inr out2 \<Rightarrow> (out1 @ out2, Inr ())))"

subsection \<open>start\_monitoring\<close>

text \<open>
  The display of one Reading formats seven channels with \<^verbatim>\<open>:.2f\<close> or \<^verbatim>\<open>:.1f\<close>; None
  raises TypeError there and a text raises ValueError.
\<close>

fun format_f :: "pyval \<Rightarrow> exn + unit" where
  "format_f PyNone = Inl TypeError"
| "format_f (PyStr s) = Inl ValueError"
| "format_f (PyFloat f) = Inr ()"

fun format_all :: "pyval list \<Rightarrow> exn + unit" where
  "format_all [] = Inr ()"
| "format_all (v # vs) = (case format_f v of Inl e \<Rightarrow> Inl e | Inr u \<Rightarrow> format_all vs)"

definition display :: "Reading \<Rightarrow> exn + unit" where
  "display data =
     format_all [dry_flow data, dry_setpoint data, wet_flow data, wet_setpoint data,
                 ambient_temp data, dewpoint_temp data, relative_humidity data]"

text \<open>
  The \<^verbatim>\<open>while self.running\<close> loop over the behaviour of the devices during the coming
  cycles, one \<open>cycle_env\<close> each. \<open>now\<close> is the clock at the top of the loop; the sleep
  adds \<open>interval\<close> to it. The loop may run for ever: \<open>Pending\<close> says that it is at the
  top of its next cycle when the given cycles are used up.
\<close>

datatype loop_end = Raised exn | Exited | Pending

fun monitoring_loop ::
  "rat \<Rightarrow> cycle_env list \<Rightarrow> Controller \<Rightarrow> rat \<Rightarrow> loop_end \<times> Controller \<times> rat" where
  "monitoring_loop interval [] c now = (if running c then (Pending, c, now) else (Exited, c, now))"
| "monitoring_loop interval (env # envs) c now =
     (if \<not> running c then (Exited, c, now)
      else case read_all_sensors c env now of
             Inl e \<Rightarrow> (Raised e, c, now + busy env)
           | Inr data \<Rightarrow>
               (case log_data (logger c) data of
                  Inl e \<Rightarrow> (Raised e, c, now + busy env)
                | Inr lg \<Rightarrow>
                    (let c' = c\<lparr>logger := lg, plotter := add_data_point (plotter c) data\<rparr>
                     in case display data of
                          Inl e \<Rightarrow> (Raised e, c', now + busy env)
                        | Inr u \<Rightarrow>
                            if interrupted env then (Raised KeyboardInterrupt, c', now + busy env)
                            else monitoring_loop interval envs c' (now + busy env + interval))))"

text \<open>
  \<^verbatim>\<open>DynamicPlotter.start(data_source_callback=self.read_all_sensors)\<close> sets \<^verbatim>\<open>is_running\<close>,
  creates the animation and runs \<^verbatim>\<open>plt.pause(0.1)\<close>. The animation draws a frame by calling
  the callback, here \<^verbatim>\<open>read_all_sensors\<close>, and passing the Reading it returns to
  \<^verbatim>\<open>add_data_point\<close>. \<open>frames\<close> are the frames drawn during the pause, each with what the
  devices do during it: one, the initial frame, when the update interval is longer than
  the pause, and none where the backend draws nothing. An exception of the callback
  leaves \<^verbatim>\<open>start\<close>; the drawing itself, which is the plotting library's, is taken not
  to raise. During the loop nothing runs the animation: the loop sleeps.
\<close>

fun plotter_frames ::
  "cycle_env list \<Rightarrow> Controller \<Rightarrow> rat \<Rightarrow> (exn + unit) \<times> Controller \<times> rat" where
  "plotter_frames [] c now = (Inr (), c, now)"
| "plotter_frames (env # envs) c now =
     (case read_all_sensors c env now of
        Inl e \<Rightarrow> (Inl e, c, now + busy env)
      | Inr data \<Rightarrow>
          plotter_frames envs (c\<lparr>plotter := add_data_point (plotter c) data\<rparr>) (now + busy env))"

definition plotter_start ::
  "cycle_env list \<Rightarrow> Controller \<Rightarrow> rat \<Rightarrow> (exn + unit) \<times> Controller \<times> rat" where
  "plotter_start frames c now =
     plotter_frames frames (c\<lparr>plotter := (plotter c)\<lparr>is_running := True\<rparr>\<rparr>) now"

text \<open>The \<^verbatim>\<open>finally\<close> block.\<close>

definition finally_block :: "Controller \<Rightarrow> Controller" where
  "finally_block c = c\<lparr>running := False, plotter := (plotter c)\<lparr>is_running := False\<rparr>\<rparr>"

text \<open>
  \<^verbatim>\<open>start_monitoring\<close>: the log is started and the plotter is started before the \<^verbatim>\<open>try\<close>
  block, so that an exception there leaves the function at once. Inside the block
  KeyboardInterrupt is the one exception handled; any other leaves the function after the
  \<^verbatim>\<open>finally\<close> block.
\<close>

definition start_monitoring ::
  "rat \<Rightarrow> cycle_env list \<Rightarrow> cycle_env list \<Rightarrow> Controller \<Rightarrow> rat
     \<Rightarrow> loop_end \<times> Controller \<times> rat" where
  "start_monitoring interval frames envs c now =
     (case plotter_start frames (c\<lparr>logger := start_new_log (logger c) log_fields\<rparr>) now of
        (Inl e, c1, t) \<Rightarrow> (Raised e, c1, t)
      | (Inr u, c1, t) \<Rightarrow>
          (let (r, c2, t') = monitoring_loop interval envs (c1\<lparr>running := True\<rparr>) t
           in if r = Pending then (Pending, c2, t')
              else if r = Raised KeyboardInterrupt then (Exited, finally_block c2, t')
              else (r, finally_block c2, t')))"

section \<open>Notions the statements use\<close>

text \<open>
  A line has the labelled field \<open>label\<close> when the label occurs in it followed, after any
  white space, by an equals sign.
\<close>

definition label_at :: "string \<Rightarrow> string \<Rightarrow> bool" where
  "label_at label s =
     (prefix label s \<and>
      (case dropWhile is_space (drop (length label) s) of
         [] \<Rightarrow> False
       | c # _ \<Rightarrow> c = CHR ''=''))"

fun has_field :: "string \<Rightarrow> string \<Rightarrow> bool" where
  "has_field label [] = label_at label []"
| "has_field label (c # cs) = (label_at label (c # cs) \<or> has_field label cs)"

text \<open>The texts a pattern matches, whatever the order in which the matcher finds them.\<close>

fun lang :: "re \<Rightarrow> string set" where
  "lang Eps = {[]}"
| "lang (One c) = {[x] | x. cmatch c x}"
| "lang (Star c) = {u. list_all (cmatch c) u}"
| "lang (LazyStar c) = {u. list_all (cmatch c) u}"
| "lang (Seq a b) = {u @ v | u v. u \<in> lang a \<and> v \<in> lang b}"
| "lang (Group n r) = lang r"

text \<open>
  A read of the cycle fails: a configured flow controller or the configured hygrometer
  raises, or a probe is set (the lookup of \<^verbatim>\<open>self.T_probe\<close> then raises).
\<close>

definition mfc_read_fails :: "VogtlinMFC option \<Rightarrow> bus \<Rightarrow> bool" where
  "mfc_read_fails mfc b =
     (case mfc of
        None \<Rightarrow> False
      | Some m \<Rightarrow> isl (VogtlinMFC_get_flow m b) \<or> isl (VogtlinMFC_get_setpoint m b))"

definition read_fails :: "Controller \<Rightarrow> cycle_env \<Rightarrow> bool" where
  "read_fails c env =
     (mfc_read_fails (dry_mfc c) (dry_bus env) \<or> mfc_read_fails (wet_mfc c) (wet_bus env)
      \<or> (hygrometer c \<noteq> None \<and> isl (get_readings env)) \<or> t_probe c \<noteq> None)"

section \<open>main.py and config.py: the configured system\<close>

text \<open>
  The configuration \<^verbatim>\<open>main\<close> builds: its defaults updated with \<^verbatim>\<open>CONFIG\<close> of config.py.
\<close>

definition main_config :: config where
  "main_config = map_of
     [(''log_dir'', CStr ''data''), (''log_prefix'', CStr ''nsim_log''),
      (''max_plot_points'', CInt 500), (''plot_update_interval'', CInt 1000),
      (''dry_mfc_port'', CStr ''/dev/ttyS3''), (''dry_mfc_address'', CInt 1),
      (''wet_mfc_port'', CStr ''/dev/ttyS4''), (''wet_mfc_address'', CInt 2),
      (''hygrometer_port'', CStr ''/dev/ttyS5''),
      (''mfc_baudrate'', CInt 9600), (''hygrometer_baudrate'', CInt 19200)]"

text \<open>The same with a temperature probe configured.\<close>

definition probe_config :: config where
  "probe_config = main_config(''t_probe'' \<mapsto> CStr ''/dev/ttyS6'',
                              ''t_probe_port'' \<mapsto> CStr ''/dev/ttyS6'')"

text \<open>The two flow controllers alone, and with a temperature probe.\<close>

definition mfc_config :: config where
  "mfc_config = main_config(''hygrometer_port'' := None)"

definition mfc_probe_config :: config where
  "mfc_probe_config = mfc_config(''t_probe'' \<mapsto> CStr ''/dev/ttyS6'',
                                 ''t_probe_port'' \<mapsto> CStr ''/dev/ttyS6'')"

text \<open>
  \<^verbatim>\<open>Controller.__init__\<close>: \<open>new_controller cfg n\<close> is the object it leaves, with a plot
  buffer of \<open>n\<close> points. The buffers are \<^verbatim>\<open>deque(maxlen=max_points)\<close>, which raises
  ValueError for a negative number and TypeError for a text. Errors of the file system
  and of the plotting library are not modelled.
\<close>

definition new_controller :: "config \<Rightarrow> nat \<Rightarrow> Controller" where
  "new_controller cfg n =
     \<lparr>config = cfg, running = False, dry_mfc = None, wet_mfc = None, hygrometer = None,
      t_probe = None,
      logger = \<lparr>fieldnames = None, rows = []\<rparr>,
      plotter = \<lparr>max_points = n, points = [], is_running = False\<rparr>\<rparr>"

definition Controller_init :: "config \<Rightarrow> exn + Controller" where
  "Controller_init cfg =
     (case config_get cfg ''max_plot_points'' (CInt 500) of
        CInt n \<Rightarrow> if n < 0 then Inl ValueError else Inr (new_controller cfg (nat n))
      | CStr t \<Rightarrow> Inl TypeError)"

text \<open>
  Controllers after \<^verbatim>\<open>connect_devices\<close>: \<open>lab\<close> with every port opening, \<open>lab_wet_down\<close>
  with the port of the wet-air controller failing to open (the operator continues),
  \<open>lab_mfc\<close> with the two flow controllers alone, and \<open>lab_probe\<close> with the two flow
  controllers and a probe.
\<close>

definition all_ports :: connect_env where
  "all_ports = \<lparr>port_opens = (\<lambda>p. True), probe_connect = Inr True\<rparr>"

definition lab :: Controller where
  "lab = fst (connect_devices all_ports (new_controller main_config 500))"

definition lab_wet_down :: Controller where
  "lab_wet_down =
     fst (connect_devices \<lparr>port_opens = (\<lambda>p. p \<noteq> CStr ''/dev/ttyS4''), probe_connect = Inr True\<rparr>
            (new_controller main_config 500))"

definition lab_mfc :: Controller where
  "lab_mfc = fst (connect_devices all_ports (new_controller mfc_config 500))"

definition lab_probe :: Controller where
  "lab_probe = fst (connect_devices all_ports (new_controller mfc_probe_config 500))"

text \<open>
  Cycles: in \<open>ok_cycle\<close> both controllers answer every read with the registers of 10.0;
  the hygrometer call and the probe call, where a controller makes them, do what they do
  on the sources' classes, which lack the methods: they raise AttributeError. In
  \<open>dry_timeout\<close> the dry-air controller does not answer, in \<open>wet_timeout\<close> the wet-air
  controller does not.
\<close>

definition ok_cycle :: cycle_env where
  "ok_cycle =
     \<lparr>dry_bus = (\<lambda>a. Inr [0x4120, 0x0000]), wet_bus = (\<lambda>a. Inr [0x4120, 0x0000]),
      get_readings = Inl AttributeError, get_temperature = Inl AttributeError,
      busy = 1, interrupted = False\<rparr>"

definition dry_timeout :: cycle_env where
  "dry_timeout = ok_cycle\<lparr>dry_bus := (\<lambda>a. Inl ModbusError)\<rparr>"

definition wet_timeout :: cycle_env where
  "wet_timeout = ok_cycle\<lparr>wet_bus := (\<lambda>a. Inl ModbusError)\<rparr>"

text \<open>
  A cycle in which the hygrometer call returns what \<^verbatim>\<open>poll\<close> returns for the line of the
  instrument's manual, as \<^verbatim>\<open>readline\<close> delivers it.
\<close>

definition manual_line :: string where
  "manual_line =
     ''11/13/25  13:41:50   DP =    2.0 C  AT  =   24.1 C  RH  =   23.5    SERVOLOCK''"

definition polled_cycle :: cycle_env where
  "polled_cycle =
     ok_cycle\<lparr>get_readings :=
       DewMaster_poll \<lparr>dm_port = CStr ''/dev/ttyS5'', dm_baudrate = CInt 19200, ser = Some True\<rparr>
         [manual_line @ [CHR 0x0D, CHR 0x0A]]\<rparr>"




section \<open>The codec round trip\<close>

lemma bytes_of_regs:
  "pack_HH [push_bit 8 (ucast b0) OR ucast b1, push_bit 8 (ucast b2) OR ucast b3]
     = Inr [b0, b1, b2, b3]"
proof -
  have hi: "ucast (drop_bit 8 (push_bit 8 (ucast x) OR ucast y :: 16 word)) = x"
    for x y :: "8 word"
    by (rule bit_word_eqI) (auto simp add: bit_simps dest: bit_imp_le_length)
  have lo: "ucast (push_bit 8 (ucast x) OR ucast y :: 16 word) = y" for x y :: "8 word"
    by (rule bit_word_eqI) (auto simp add: bit_simps dest: bit_imp_le_length)
  show ?thesis
    by (simp only: pack_HH_def list.case hi lo)
qed

lemma pattern_of_bytes_of:
  "pattern_of (ucast (drop_bit 24 w)) (ucast (drop_bit 16 w)) (ucast (drop_bit 8 w)) (ucast w) = w"
  unfolding pattern_of_def
proof (rule bit_word_eqI)
  fix n :: nat
  assume "n < LENGTH(32)"
  then show "bit (push_bit 24 (ucast (ucast (drop_bit 24 w) :: 8 word))
        OR push_bit 16 (ucast (ucast (drop_bit 16 w) :: 8 word))
        OR push_bit 8 (ucast (ucast (drop_bit 8 w) :: 8 word))
        OR ucast (ucast w :: 8 word) :: 32 word) n = bit w n"
    by (cases "n < 8"; cases "n < 16"; cases "n < 24") (auto simp add: bit_simps)
qed

lemma quiet_not_signalling: "\<not> signalling (quiet w)"
proof (cases "signalling w")
  case True
  have "(w OR 0x00400000) AND 0x00400000 = (0x00400000 :: 32 word)"
    by (rule bit_word_eqI) (auto simp add: bit_simps)
  then have "\<not> signalling (w OR 0x00400000)"
    by (simp add: signalling_def)
  with True show ?thesis by (simp add: quiet_def)
next
  case False
  then show ?thesis by (simp add: quiet_def)
qed

lemma quiet_quiet: "quiet (quiet w) = quiet w"
  using quiet_not_signalling[of w] by (simp add: quiet_def[of "quiet w"])

lemma unpack_bytes_of: "unpack_f (bytes_of p) = Inr (quiet p)"
  by (simp add: unpack_f_def bytes_of_def pattern_of_bytes_of)

lemma regs_of_pattern:
  "unpack_HH (bytes_of p) =
     Inr [push_bit 8 (ucast (ucast (drop_bit 24 p) :: 8 word)) OR ucast (ucast (drop_bit 16 p) :: 8 word),
          push_bit 8 (ucast (ucast (drop_bit 8 p) :: 8 word)) OR ucast (ucast p :: 8 word)]"
  by (simp add: unpack_HH_def bytes_of_def)

lemma round_trip_quiet:
  "\<exists>r0 r1. write_float_regs w swap = Inr [r0, r1] \<and> read_float_regs [r0, r1] swap = Inr (quiet w)"
proof -
  let ?p = "quiet w"
  let ?hi = "push_bit 8 (ucast (ucast (drop_bit 24 ?p) :: 8 word))
               OR ucast (ucast (drop_bit 16 ?p) :: 8 word) :: 16 word"
  let ?lo = "push_bit 8 (ucast (ucast (drop_bit 8 ?p) :: 8 word))
               OR ucast (ucast ?p :: 8 word) :: 16 word"
  have again: "pack_HH [?hi, ?lo] = Inr (bytes_of ?p)"
    unfolding bytes_of_def by (rule bytes_of_regs)
  show ?thesis
  proof (cases swap)
    case True
    have "write_float_regs w swap = Inr [?lo, ?hi]"
      using True by (simp add: write_float_regs_def pack_f_def regs_of_pattern)
    moreover have "read_float_regs [?lo, ?hi] swap = Inr ?p"
      using True again by (simp add: read_float_regs_def unpack_bytes_of quiet_quiet)
    ultimately show ?thesis by blast
  next
    case False
    have "write_float_regs w swap = Inr [?hi, ?lo]"
      using False by (simp add: write_float_regs_def pack_f_def regs_of_pattern)
    moreover have "read_float_regs [?hi, ?lo] swap = Inr ?p"
      using False again by (simp add: read_float_regs_def unpack_bytes_of quiet_quiet)
    ultimately show ?thesis by blast
  qed
qed

text \<open>
  The claim C3 fails on a signalling NaN: the value with the single-precision pattern
  7FA00000 is written as the registers 7FE0, 0000 and read back as the quiet NaN 7FE00000;
  and registers holding 7FA0, 0000 are read as that quiet NaN too.
\<close>

theorem codec_signalling_nan_counterexample:
  "write_float_regs 0x7FA00000 False = Inr [0x7FE0, 0x0000]
   \<and> read_float_regs [0x7FE0, 0x0000] False = Inr 0x7FE00000
   \<and> read_float_regs [0x7FA0, 0x0000] False = Inr 0x7FE00000"
  by (simp add: write_float_regs_def read_float_regs_def pack_f_def unpack_f_def unpack_HH_def
        pack_HH_def bytes_of_def pattern_of_def quiet_def signalling_def)

text \<open>
  C3, amended. For every single-precision pattern \<open>w\<close> that is not a signalling NaN (zero,
  negative values, subnormals, every other finite value, both infinities and the quiet
  NaNs) and each setting of the swap flag, \<^verbatim>\<open>_write_float\<close> produces two registers, and
  \<^verbatim>\<open>_read_float\<close> applied to these two registers with the same flag gives back \<open>w\<close>, bit
  for bit; nothing is rejected.
\<close>

theorem codec_round_trip:
  assumes "\<not> signalling w"
  shows "\<exists>r0 r1. write_float_regs w swap = Inr [r0, r1] \<and> read_float_regs [r0, r1] swap = Inr w"
  using assms round_trip_quiet[of w swap] by (simp add: quiet_def)

text \<open>
  Instances: the smallest subnormal with the registers swapped, minus infinity, and a quiet
  NaN with a payload.
\<close>

theorem codec_round_trip_witness:
  "\<not> signalling 0x00000001
   \<and> (\<exists>r0 r1. write_float_regs 0x00000001 True = Inr [r0, r1]
         \<and> read_float_regs [r0, r1] True = Inr 0x00000001)
   \<and> \<not> signalling 0xFF800000
   \<and> (\<exists>r0 r1. write_float_regs 0xFF800000 False = Inr [r0, r1]
         \<and> read_float_regs [r0, r1] False = Inr 0xFF800000)
   \<and> \<not> signalling 0x7FC00001
   \<and> (\<exists>r0 r1. write_float_regs 0x7FC00001 False = Inr [r0, r1]
         \<and> read_float_regs [r0, r1] False = Inr 0x7FC00001)"
proof -
  have h: "\<not> signalling 0x00000001" "\<not> signalling 0xFF800000" "\<not> signalling 0x7FC00001"
    by (simp_all add: signalling_def)
  show ?thesis
    using h codec_round_trip[OF h(1), of True] codec_round_trip[OF h(2), of False]
      codec_round_trip[OF h(3), of False]
    by blast
qed

section \<open>The line pattern: what a match implies\<close>

lemma star_greedy_sound:
  "rest \<in> set (star_greedy c s) \<Longrightarrow> \<exists>u. s = u @ rest \<and> list_all (cmatch c) u"
proof (induction s)
  case Nil
  then show ?case by simp
next
  case (Cons x xs)
  show ?case
  proof (cases "rest = x # xs")
    case True
    then show ?thesis by simp
  next
    case False
    with Cons.prems have cx: "cmatch c x" and "rest \<in> set (star_greedy c xs)"
      by (auto split: if_splits)
    then obtain u where "xs = u @ rest" "list_all (cmatch c) u"
      using Cons.IH by blast
    then have "x # xs = (x # u) @ rest \<and> list_all (cmatch c) (x # u)"
      using cx by simp
    then show ?thesis by blast
  qed
qed

lemma star_lazy_sound:
  "rest \<in> set (star_lazy c s) \<Longrightarrow> \<exists>u. s = u @ rest \<and> list_all (cmatch c) u"
proof (induction s)
  case Nil
  then show ?case by simp
next
  case (Cons x xs)
  show ?case
  proof (cases "rest = x # xs")
    case True
    then show ?thesis by simp
  next
    case False
    with Cons.prems have cx: "cmatch c x" and "rest \<in> set (star_lazy c xs)"
      by (auto split: if_splits)
    then obtain u where "xs = u @ rest" "list_all (cmatch c) u"
      using Cons.IH by blast
    then have "x # xs = (x # u) @ rest \<and> list_all (cmatch c) (x # u)"
      using cx by simp
    then show ?thesis by blast
  qed
qed

lemma rmatch_sound:
  "(rest, cs') \<in> set (rmatch r s cs) \<Longrightarrow> \<exists>u. s = u @ rest \<and> u \<in> lang r"
proof (induction r arbitrary: s cs rest cs')
  case Eps
  then show ?case by simp
next
  case (One c)
  then show ?case by (cases s) (auto split: if_splits)
next
  case (Star c)
  then show ?case using star_greedy_sound by fastforce
next
  case (LazyStar c)
  then show ?case using star_lazy_sound by fastforce
next
  case (Seq a b)
  from Seq.prems obtain mid cm where
    m1: "(mid, cm) \<in> set (rmatch a s cs)" and m2: "(rest, cs') \<in> set (rmatch b mid cm)"
    by auto
  from Seq.IH(1)[OF m1] obtain u where u: "s = u @ mid" "u \<in> lang a" by blast
  from Seq.IH(2)[OF m2] obtain v where v: "mid = v @ rest" "v \<in> lang b" by blast
  have "s = (u @ v) @ rest \<and> u @ v \<in> lang (Seq a b)"
    using u v by auto
  then show ?case by blast
next
  case (Group n r)
  then show ?case by auto
qed

lemma search_sound:
  "search r s = Some cs \<Longrightarrow> \<exists>pre u post. s = pre @ u @ post \<and> u \<in> lang r"
proof (induction s)
  case Nil
  then obtain rest where "(rest, cs) \<in> set (rmatch r [] [])"
    by (auto split: list.splits)
  from rmatch_sound[OF this] show ?case by (metis append_Nil)
next
  case (Cons x xs)
  show ?case
  proof (cases "rmatch r (x # xs) []")
    case Nil
    with Cons.prems have "search r xs = Some cs" by simp
    from Cons.IH[OF this] obtain pre u post where "xs = pre @ u @ post" "u \<in> lang r"
      by blast
    then have "x # xs = (x # pre) @ u @ post \<and> u \<in> lang r" by simp
    then show ?thesis by blast
  next
    case (Cons p ps)
    then have "p \<in> set (rmatch r (x # xs) [])" by simp
    then obtain u where "x # xs = u @ fst p" "u \<in> lang r"
      using rmatch_sound[of "fst p" "snd p" r "x # xs" "[]"] by auto
    then have "x # xs = [] @ u @ fst p \<and> u \<in> lang r" by simp
    then show ?thesis by blast
  qed
qed

lemma has_field_append: "has_field label s \<Longrightarrow> has_field label (pre @ s)"
  by (induction pre) simp_all

lemma has_field_here: "label_at label s \<Longrightarrow> has_field label s"
  by (cases s) auto

lemma label_at_segment:
  assumes "list_all (cmatch Space) ws"
  shows "label_at label (label @ ws @ CHR ''='' # rest)"
proof -
  have "\<not> is_space (CHR ''='')"
    by (simp add: is_space_def space_chars_def)
  moreover have "\<forall>c \<in> set ws. is_space c"
    using assms by (simp add: list_all_iff is_space_def)
  ultimately have "dropWhile is_space (ws @ CHR ''='' # rest) = CHR ''='' # rest"
    by (simp add: dropWhile_append3)
  then show ?thesis
    by (simp add: label_at_def)
qed

lemma lang_seqs_cons:
  "lang (seqs (r # rs)) = {u @ v | u v. u \<in> lang r \<and> v \<in> lang (seqs rs)}"
  by (simp add: seqs_def)

lemma lang_seqs_nil: "lang (seqs []) = {[]}"
  by (simp add: seqs_def)

lemma lang_seqs_split:
  "u \<in> lang (seqs (r # rs)) \<Longrightarrow> \<exists>a b. u = a @ b \<and> a \<in> lang r \<and> b \<in> lang (seqs rs)"
  by (auto simp add: lang_seqs_cons)

lemma lang_lits: "lang (lits s) = {s}"
proof (induction s)
  case Nil
  then show ?case by (simp add: lits_def seqs_def)
next
  case (Cons a s)
  then show ?case by (auto simp add: lits_def seqs_def)
qed

lemma lang_field:
  assumes "u \<in> lang (field label name)"
  shows "has_field label (pre @ u @ post)"
proof -
  from assms obtain a ws b where
    u: "u = a @ label @ ws @ CHR ''='' # b" and ws: "list_all (cmatch Space) ws"
    by (auto simp add: field_def lang_seqs_cons lang_seqs_nil lang_lits)
  have "has_field label (label @ ws @ CHR ''='' # (b @ post))"
    using label_at_segment[OF ws] has_field_here by blast
  then have "has_field label ((pre @ a) @ label @ ws @ CHR ''='' # (b @ post))"
    by (rule has_field_append)
  then show ?thesis using u by simp
qed

lemma lang_data_pattern:
  assumes "u \<in> lang data_pattern"
  shows "has_field ''DP'' (pre @ u @ post) \<and> has_field ''AT'' (pre @ u @ post)
         \<and> has_field ''RH'' (pre @ u @ post)"
proof -
  from assms obtain d r1 where s1: "u = d @ r1" and
    "r1 \<in> lang (seqs [plus Space,
           Group ''time''
             (seqs [digits2, One (Lit (CHR '':'')), digits2, One (Lit (CHR '':'')), digits2]),
           field ''DP'' ''dp'', unit_C, field ''AT'' ''at'', unit_C, field ''RH'' ''rh''])"
    unfolding data_pattern_def by (blast dest: lang_seqs_split)
  then obtain w r2 where s2: "r1 = w @ r2" and
    "r2 \<in> lang (seqs [
           Group ''time''
             (seqs [digits2, One (Lit (CHR '':'')), digits2, One (Lit (CHR '':'')), digits2]),
           field ''DP'' ''dp'', unit_C, field ''AT'' ''at'', unit_C, field ''RH'' ''rh''])"
    by (blast dest: lang_seqs_split)
  then obtain t r3 where s3: "r2 = t @ r3" and
    "r3 \<in> lang (seqs [field ''DP'' ''dp'', unit_C, field ''AT'' ''at'', unit_C,
                       field ''RH'' ''rh''])"
    by (blast dest: lang_seqs_split)
  then obtain f1 r4 where s4: "r3 = f1 @ r4" and f1: "f1 \<in> lang (field ''DP'' ''dp'')" and
    "r4 \<in> lang (seqs [unit_C, field ''AT'' ''at'', unit_C, field ''RH'' ''rh''])"
    by (blast dest: lang_seqs_split)
  then obtain c1 r5 where s5: "r4 = c1 @ r5" and
    "r5 \<in> lang (seqs [field ''AT'' ''at'', unit_C, field ''RH'' ''rh''])"
    by (blast dest: lang_seqs_split)
  then obtain f2 r6 where s6: "r5 = f2 @ r6" and f2: "f2 \<in> lang (field ''AT'' ''at'')" and
    "r6 \<in> lang (seqs [unit_C, field ''RH'' ''rh''])"
    by (blast dest: lang_seqs_split)
  then obtain c2 r7 where s7: "r6 = c2 @ r7" and
    "r7 \<in> lang (seqs [field ''RH'' ''rh''])"
    by (blast dest: lang_seqs_split)
  then have f3: "r7 \<in> lang (field ''RH'' ''rh'')"
    by (auto simp add: lang_seqs_cons lang_seqs_nil)
  have u: "u = (d @ w @ t) @ f1 @ c1 @ f2 @ c2 @ r7"
    using s1 s2 s3 s4 s5 s6 s7 by simp
  have "has_field ''DP'' ((pre @ d @ w @ t) @ f1 @ (c1 @ f2 @ c2 @ r7 @ post))"
    by (rule lang_field[OF f1])
  moreover have "has_field ''AT'' ((pre @ d @ w @ t @ f1 @ c1) @ f2 @ (c2 @ r7 @ post))"
    by (rule lang_field[OF f2])
  moreover have "has_field ''RH'' ((pre @ d @ w @ t @ f1 @ c1 @ f2 @ c2) @ r7 @ post)"
    by (rule lang_field[OF f3])
  ultimately show ?thesis using u by simp
qed

lemma search_fields:
  assumes "search data_pattern line = Some cs"
  shows "has_field ''DP'' line \<and> has_field ''AT'' line \<and> has_field ''RH'' line"
proof -
  from search_sound[OF assms] obtain pre u post where
    "line = pre @ u @ post" "u \<in> lang data_pattern" by blast
  then show ?thesis using lang_data_pattern by blast
qed

section \<open>The line parse\<close>

text \<open>
  C4. On the line
  \<^verbatim>\<open>11/13/25  13:41:50   DP =    2.0 C  AT  =   24.1 C  RH  =   23.5    SERVOLOCK\<close>
  the parse succeeds: it returns the date and the time as texts and the three channels
  dp = 2.0, at = 24.1 and rh = 23.5 as floats, whatever the white space and the trailing
  status word.
\<close>

theorem parse_line_literal:
  "parse_line ''11/13/25  13:41:50   DP =    2.0 C  AT  =   24.1 C  RH  =   23.5    SERVOLOCK''
     = Inr (Some [(''date'', PyStr ''11/13/25''), (''time'', PyStr ''13:41:50''),
                  (''dp'', PyFloat (Dec 2)), (''at'', PyFloat (Dec (241 / 10))),
                  (''rh'', PyFloat (Dec (47 / 2)))])"
  by code_simp

text \<open>
  C5. A line that lacks one of the three labelled fields (\<^verbatim>\<open>DP =\<close>, \<^verbatim>\<open>AT =\<close> or
  \<^verbatim>\<open>RH =\<close>) is not matched: the parse returns the no-match result \<open>Inr None\<close>, neither a
  partial dictionary nor an exception.
\<close>

theorem parse_line_missing_field:
  assumes "\<not> has_field ''DP'' line \<or> \<not> has_field ''AT'' line \<or> \<not> has_field ''RH'' line"
  shows "parse_line line = Inr None"
proof (cases "search data_pattern line")
  case None
  then show ?thesis by (simp add: parse_line_def)
next
  case (Some cs)
  then have "has_field ''DP'' line \<and> has_field ''AT'' line \<and> has_field ''RH'' line"
    by (rule search_fields)
  with assms show ?thesis by blast
qed

theorem parse_line_missing_field_witness:
  "\<not> has_field ''RH'' ''11/13/25  13:41:50   DP =    2.0 C  AT  =   24.1 C    SERVOLOCK''
   \<and> parse_line ''11/13/25  13:41:50   DP =    2.0 C  AT  =   24.1 C    SERVOLOCK'' = Inr None"
proof -
  have h: "\<not> has_field ''RH'' ''11/13/25  13:41:50   DP =    2.0 C  AT  =   24.1 C    SERVOLOCK''"
    by code_simp
  then show ?thesis
    using parse_line_missing_field
            [of "''11/13/25  13:41:50   DP =    2.0 C  AT  =   24.1 C    SERVOLOCK''"]
    by blast
qed

section \<open>The configured system\<close>

lemmas connect_defs = connect_devices_def
    connect_dry_def connect_wet_def connect_hygrometer_def connect_t_probe_def
    VogtlinMFC_connect_def DewMaster_connect_def config_get_def new_controller_def

lemma Controller_init_configs:
  "Controller_init main_config = Inr (new_controller main_config 500)"
  "Controller_init probe_config = Inr (new_controller probe_config 500)"
  "Controller_init mfc_config = Inr (new_controller mfc_config 500)"
  "Controller_init mfc_probe_config = Inr (new_controller mfc_probe_config 500)"
  by (simp_all add: Controller_init_def config_get_def main_config_def probe_config_def
        mfc_config_def mfc_probe_config_def)

lemma lab_handles:
  "dry_mfc lab = Some \<lparr>mfc_port = CStr ''/dev/ttyS3'', mfc_address = CInt 1,
                       mfc_name = ''Dry Air MFC'', instrument = True\<rparr>"
  "wet_mfc lab = Some \<lparr>mfc_port = CStr ''/dev/ttyS4'', mfc_address = CInt 2,
                       mfc_name = ''Wet Air MFC'', instrument = True\<rparr>"
  "hygrometer lab = Some \<lparr>dm_port = CStr ''/dev/ttyS5'', dm_baudrate = CInt 19200, ser = Some True\<rparr>"
  "t_probe lab = None"
  "running lab = False"
  "logger lab = \<lparr>fieldnames = None, rows = []\<rparr>"
  "plotter lab = \<lparr>max_points = 500, points = [], is_running = False\<rparr>"
  by (simp_all add: lab_def all_ports_def main_config_def connect_defs)

lemma lab_wet_down_handles:
  "dry_mfc lab_wet_down = Some \<lparr>mfc_port = CStr ''/dev/ttyS3'', mfc_address = CInt 1,
                       mfc_name = ''Dry Air MFC'', instrument = True\<rparr>"
  "wet_mfc lab_wet_down = Some \<lparr>mfc_port = CStr ''/dev/ttyS4'', mfc_address = CInt 2,
                       mfc_name = ''Wet Air MFC'', instrument = False\<rparr>"
  "hygrometer lab_wet_down = Some \<lparr>dm_port = CStr ''/dev/ttyS5'', dm_baudrate = CInt 19200, ser = Some True\<rparr>"
  "t_probe lab_wet_down = None"
  by (simp_all add: lab_wet_down_def main_config_def connect_defs)

lemma lab_mfc_handles:
  "dry_mfc lab_mfc = Some \<lparr>mfc_port = CStr ''/dev/ttyS3'', mfc_address = CInt 1,
                       mfc_name = ''Dry Air MFC'', instrument = True\<rparr>"
  "wet_mfc lab_mfc = Some \<lparr>mfc_port = CStr ''/dev/ttyS4'', mfc_address = CInt 2,
                       mfc_name = ''Wet Air MFC'', instrument = True\<rparr>"
  "hygrometer lab_mfc = None"
  "t_probe lab_mfc = None"
  "running lab_mfc = False"
  "logger lab_mfc = \<lparr>fieldnames = None, rows = []\<rparr>"
  "plotter lab_mfc = \<lparr>max_points = 500, points = [], is_running = False\<rparr>"
  by (simp_all add: lab_mfc_def all_ports_def mfc_config_def main_config_def connect_defs)

lemma lab_probe_handles:
  "dry_mfc lab_probe = Some \<lparr>mfc_port = CStr ''/dev/ttyS3'', mfc_address = CInt 1,
                       mfc_name = ''Dry Air MFC'', instrument = True\<rparr>"
  "wet_mfc lab_probe = Some \<lparr>mfc_port = CStr ''/dev/ttyS4'', mfc_address = CInt 2,
                       mfc_name = ''Wet Air MFC'', instrument = True\<rparr>"
  "hygrometer lab_probe = None"
  "t_probe lab_probe = Some \<lparr>tp_port = CStr ''/dev/ttyS6'', tp_baudrate = CInt 9600\<rparr>"
  by (simp_all add: lab_probe_def all_ports_def mfc_probe_config_def mfc_config_def
        main_config_def connect_defs)

text \<open>
  C2. With the hygrometer's port failing to open, \<^verbatim>\<open>DewMaster.connect\<close> raises RuntimeError
  instead of returning False; the exception leaves \<^verbatim>\<open>connect_devices\<close>, which returns
  nothing, and the configured temperature probe is never attempted.
\<close>

theorem connect_devices_hygrometer_raises:
  "Controller_init probe_config = Inr (new_controller probe_config 500)
   \<and> snd (connect_devices \<lparr>port_opens = (\<lambda>p. p \<noteq> CStr ''/dev/ttyS5''), probe_connect = Inr True\<rparr>
         (new_controller probe_config 500))
     = ([Connecting DryMFC, ConnectOK DryMFC, Connecting WetMFC, ConnectOK WetMFC,
         Connecting Hygrometer], Inl RuntimeError)
   \<and> t_probe (fst (connect_devices
         \<lparr>port_opens = (\<lambda>p. p \<noteq> CStr ''/dev/ttyS5''), probe_connect = Inr True\<rparr>
         (new_controller probe_config 500))) = None"
  by (simp add: Controller_init_def probe_config_def main_config_def connect_defs)

text \<open>
  The one setpoint method the driver has returns None when the write goes through, which
  the test \<^verbatim>\<open>if self.dry_mfc.set_flow(dry_flow)\<close> would take for a failure.
\<close>

lemma set_flow_setpoint_returns_None:
  "VogtlinMFC_set_flow_setpoint m wb v = Inr r \<Longrightarrow> r = PyNone \<and> \<not> truthy r"
  by (auto simp add: VogtlinMFC_set_flow_setpoint_def split: option.splits sum.splits)

text \<open>
  C6. With both controllers connected, \<^verbatim>\<open>set_flow_rates(10.0, 5.0)\<close> raises AttributeError
  at the dry-air call, since \<^verbatim>\<open>VogtlinMFC\<close> has no attribute \<^verbatim>\<open>set_flow\<close>: nothing is
  reported for either controller and the wet-air write is never attempted.
\<close>

theorem set_flow_rates_raises:
  "set_flow_rates lab \<lparr>set_flow = (\<lambda>d. if d = DryMFC then Inl ModbusError else Inr PyNone)\<rparr>
     (Some 0x41200000) (Some 0x40A00000) = ([], Inl AttributeError)"
  by (simp add: set_flow_rates_def set_flow_block_def VogtlinMFC_getattr_def VogtlinMFC_attrs_def
        lab_handles)

section \<open>A failing read\<close>

lemma isl_read_dry_mfc:
  "isl (read_dry_mfc c env data) = mfc_read_fails (dry_mfc c) (dry_bus env)"
  by (simp add: read_dry_mfc_def mfc_read_fails_def split: option.splits sum.splits)

lemma isl_read_wet_mfc:
  "isl (read_wet_mfc c env data) = mfc_read_fails (wet_mfc c) (wet_bus env)"
  by (simp add: read_wet_mfc_def mfc_read_fails_def split: option.splits sum.splits)

lemma isl_read_hygrometer:
  "isl (read_hygrometer c env data) = (hygrometer c \<noteq> None \<and> isl (get_readings env))"
  by (simp add: read_hygrometer_def split: option.splits sum.splits)

lemma read_t_probe_cases:
  "read_t_probe c env data = (if t_probe c = None then Inr data else Inl AttributeError)"
  by (simp add: read_t_probe_def Controller_attrs_def split: option.splits)

lemma read_all_sensors_reaches_probe:
  assumes "\<not> mfc_read_fails (dry_mfc c) (dry_bus env)"
      and "\<not> mfc_read_fails (wet_mfc c) (wet_bus env)"
      and "\<not> (hygrometer c \<noteq> None \<and> isl (get_readings env))"
  shows "\<exists>d. read_all_sensors c env now = read_t_probe c env d"
proof -
  obtain d1 where d1: "read_dry_mfc c env (fresh_data now) = Inr d1"
    using assms(1) isl_read_dry_mfc[of c env "fresh_data now"]
    by (cases "read_dry_mfc c env (fresh_data now)") auto
  obtain d2 where d2: "read_wet_mfc c env d1 = Inr d2"
    using assms(2) isl_read_wet_mfc[of c env d1] by (cases "read_wet_mfc c env d1") auto
  obtain d3 where d3: "read_hygrometer c env d2 = Inr d3"
    using assms(3) isl_read_hygrometer[of c env d2] by (cases "read_hygrometer c env d2") auto
  have "read_all_sensors c env now = read_t_probe c env d3"
    using d1 d2 d3 by (simp add: read_all_sensors_def)
  then show ?thesis ..
qed

lemma isl_read_all_sensors:
  "isl (read_all_sensors c env now) = read_fails c env"
proof (cases "read_dry_mfc c env (fresh_data now)")
  case (Inl e)
  then have "mfc_read_fails (dry_mfc c) (dry_bus env)"
    using isl_read_dry_mfc[of c env "fresh_data now"] by simp
  with Inl show ?thesis
    by (simp add: read_all_sensors_def read_fails_def)
next
  case dry: (Inr d1)
  then have n1: "\<not> mfc_read_fails (dry_mfc c) (dry_bus env)"
    using isl_read_dry_mfc[of c env "fresh_data now"] by simp
  show ?thesis
  proof (cases "read_wet_mfc c env d1")
    case (Inl e)
    then have "mfc_read_fails (wet_mfc c) (wet_bus env)"
      using isl_read_wet_mfc[of c env d1] by simp
    with dry Inl show ?thesis
      by (simp add: read_all_sensors_def read_fails_def)
  next
    case wet: (Inr d2)
    then have n2: "\<not> mfc_read_fails (wet_mfc c) (wet_bus env)"
      using isl_read_wet_mfc[of c env d1] by simp
    show ?thesis
    proof (cases "read_hygrometer c env d2")
      case (Inl e)
      then have "hygrometer c \<noteq> None \<and> isl (get_readings env)"
        using isl_read_hygrometer[of c env d2] by simp
      with dry wet Inl show ?thesis
        by (simp add: read_all_sensors_def read_fails_def)
    next
      case hyg: (Inr d3)
      then have n3: "\<not> (hygrometer c \<noteq> None \<and> isl (get_readings env))"
        using isl_read_hygrometer[of c env d2] by simp
      have "read_all_sensors c env now = read_t_probe c env d3"
        using dry wet hyg by (simp add: read_all_sensors_def)
      then show ?thesis
        using n1 n2 n3 by (auto simp add: read_fails_def read_t_probe_cases)
    qed
  qed
qed

lemmas read_defs = read_all_sensors_def read_dry_mfc_def read_wet_mfc_def read_hygrometer_def
  read_t_probe_def VogtlinMFC_get_flow_def VogtlinMFC_get_setpoint_def VogtlinMFC_read_float_def
  REG_def read_float_regs_def pack_HH_def unpack_f_def pattern_of_def quiet_def signalling_def
  fresh_data_def dict_get_def Controller_attrs_def

lemma answered_read:
  "VogtlinMFC_get_flow \<lparr>mfc_port = p, mfc_address = a, mfc_name = n, instrument = True\<rparr>
     (\<lambda>a. Inr [0x4120, 0x0000]) = Inr (F32 0x41200000)"
  "VogtlinMFC_get_setpoint \<lparr>mfc_port = p, mfc_address = a, mfc_name = n, instrument = True\<rparr>
     (\<lambda>a. Inr [0x4120, 0x0000]) = Inr (F32 0x41200000)"
  by (simp_all add: read_defs)

lemma read_all_sensors_same_handles:
  assumes "dry_mfc c' = dry_mfc c" "wet_mfc c' = wet_mfc c" "hygrometer c' = hygrometer c"
    "t_probe c' = t_probe c"
  shows "read_all_sensors c' env now = read_all_sensors c env now"
proof -
  have h: "read_dry_mfc c' env = read_dry_mfc c env" "read_wet_mfc c' env = read_wet_mfc c env"
       "read_hygrometer c' env = read_hygrometer c env" "read_t_probe c' env = read_t_probe c env"
    using assms
    by (simp_all add: fun_eq_iff read_dry_mfc_def read_wet_mfc_def read_hygrometer_def
          read_t_probe_def)
  show ?thesis
    unfolding read_all_sensors_def h ..
qed

text \<open>Which exception a failing read raises does not depend on the Reading being filled.\<close>

lemma read_dry_mfc_Inl: "read_dry_mfc c env d = Inl e \<Longrightarrow> read_dry_mfc c env d' = Inl e"
  by (auto simp add: read_dry_mfc_def split: option.splits sum.splits)

lemma read_wet_mfc_Inl: "read_wet_mfc c env d = Inl e \<Longrightarrow> read_wet_mfc c env d' = Inl e"
  by (auto simp add: read_wet_mfc_def split: option.splits sum.splits)

lemma read_hygrometer_Inl:
  "read_hygrometer c env d = Inl e \<Longrightarrow> read_hygrometer c env d' = Inl e"
  by (auto simp add: read_hygrometer_def split: option.splits sum.splits if_splits)

lemma block_returns:
  "isl (read_dry_mfc c env d) = isl (read_dry_mfc c env d')"
  "isl (read_wet_mfc c env d) = isl (read_wet_mfc c env d')"
  "isl (read_hygrometer c env d) = isl (read_hygrometer c env d')"
  by (simp_all add: isl_read_dry_mfc isl_read_wet_mfc isl_read_hygrometer)

lemma read_all_sensors_raises_any_time:
  assumes "read_all_sensors c env t = Inl e"
  shows "read_all_sensors c env t' = Inl e"
proof (cases "read_dry_mfc c env (fresh_data t)")
  case (Inl x)
  with assms have "x = e" by (simp add: read_all_sensors_def)
  with Inl have "read_dry_mfc c env (fresh_data t') = Inl e"
    using read_dry_mfc_Inl by blast
  then show ?thesis by (simp add: read_all_sensors_def)
next
  case d1: (Inr d1)
  then obtain d1' where d1': "read_dry_mfc c env (fresh_data t') = Inr d1'"
    using block_returns(1)[of c env "fresh_data t" "fresh_data t'"]
    by (cases "read_dry_mfc c env (fresh_data t')") auto
  show ?thesis
  proof (cases "read_wet_mfc c env d1")
    case (Inl x)
    with assms d1 have "x = e" by (simp add: read_all_sensors_def)
    with Inl have "read_wet_mfc c env d1' = Inl e"
      using read_wet_mfc_Inl by blast
    with d1' show ?thesis by (simp add: read_all_sensors_def)
  next
    case d2: (Inr d2)
    then obtain d2' where d2': "read_wet_mfc c env d1' = Inr d2'"
      using block_returns(2)[of c env d1 d1'] by (cases "read_wet_mfc c env d1'") auto
    show ?thesis
    proof (cases "read_hygrometer c env d2")
      case (Inl x)
      with assms d1 d2 have "x = e" by (simp add: read_all_sensors_def)
      with Inl have "read_hygrometer c env d2' = Inl e"
        using read_hygrometer_Inl by blast
      with d1' d2' show ?thesis by (simp add: read_all_sensors_def)
    next
      case d3: (Inr d3)
      then obtain d3' where d3': "read_hygrometer c env d2' = Inr d3'"
        using block_returns(3)[of c env d2 d2'] by (cases "read_hygrometer c env d2'") auto
      have "read_t_probe c env d3 = Inl e"
        using assms d1 d2 d3 by (simp add: read_all_sensors_def)
      then have "read_t_probe c env d3' = Inl e"
        by (simp add: read_t_probe_cases split: if_splits)
      with d1' d2' d3' show ?thesis by (simp add: read_all_sensors_def)
    qed
  qed
qed

lemma read_fails_raises:
  assumes "read_fails c env"
  shows "\<exists>e. \<forall>t. read_all_sensors c env t = Inl e"
proof -
  from assms obtain e where "read_all_sensors c env 0 = Inl e"
    using isl_read_all_sensors[of c env 0] by (cases "read_all_sensors c env 0") auto
  then have "\<forall>t. read_all_sensors c env t = Inl e"
    using read_all_sensors_raises_any_time by blast
  then show ?thesis ..
qed

text \<open>The start of the plotter changes the plotter alone.\<close>

lemma add_data_point_is_running: "is_running (add_data_point p data) = is_running p"
  by (simp add: add_data_point_def Let_def)

lemma plotter_frames_keeps:
  "plotter_frames frames c now = (r, c', t) \<Longrightarrow>
     dry_mfc c' = dry_mfc c \<and> wet_mfc c' = wet_mfc c \<and> hygrometer c' = hygrometer c
     \<and> t_probe c' = t_probe c \<and> logger c' = logger c \<and> running c' = running c
     \<and> is_running (plotter c') = is_running (plotter c)"
proof (induction frames arbitrary: c now)
  case Nil
  then show ?case by simp
next
  case (Cons env frames)
  show ?case
  proof (cases "read_all_sensors c env now")
    case (Inl e)
    with Cons.prems show ?thesis by simp
  next
    case (Inr data)
    with Cons.prems have
      "plotter_frames frames (c\<lparr>plotter := add_data_point (plotter c) data\<rparr>) (now + busy env)
         = (r, c', t)"
      by simp
    from Cons.IH[OF this] show ?thesis
      by (simp add: add_data_point_is_running)
  qed
qed

lemma plotter_start_keeps:
  assumes "plotter_start frames c now = (r, c', t)"
  shows "dry_mfc c' = dry_mfc c \<and> wet_mfc c' = wet_mfc c \<and> hygrometer c' = hygrometer c
     \<and> t_probe c' = t_probe c \<and> logger c' = logger c \<and> running c' = running c
     \<and> is_running (plotter c')"
  using plotter_frames_keeps[OF assms[unfolded plotter_start_def]] by simp

lemma plotter_frames_time:
  "plotter_frames frames c now = (Inr u, c', t) \<Longrightarrow> t = now + sum_list (map busy frames)"
proof (induction frames arbitrary: c now)
  case Nil
  then show ?case by simp
next
  case (Cons env frames)
  show ?case
  proof (cases "read_all_sensors c env now")
    case (Inl e)
    with Cons.prems show ?thesis by simp
  next
    case (Inr data)
    with Cons.prems have
      "plotter_frames frames (c\<lparr>plotter := add_data_point (plotter c) data\<rparr>) (now + busy env)
         = (Inr u, c', t)"
      by simp
    from Cons.IH[OF this] show ?thesis by simp
  qed
qed

text \<open>A read that raises in the first cycle of the loop, and one that raises in the first frame.\<close>

lemma start_monitoring_cycle_raises:
  assumes start: "plotter_start frames (c\<lparr>logger := start_new_log (logger c) log_fields\<rparr>) now
                    = (Inr u, c1, t)"
    and raises: "\<forall>t. read_all_sensors c env t = Inl e"
  shows "start_monitoring interval frames (env # envs) c now
           = (if e = KeyboardInterrupt then Exited else Raised e,
              finally_block (c1\<lparr>running := True\<rparr>), t + busy env)"
proof -
  have "read_all_sensors (c1\<lparr>running := True\<rparr>) env t = read_all_sensors c env t"
    using plotter_start_keeps[OF start] by (intro read_all_sensors_same_handles) simp_all
  then have "read_all_sensors (c1\<lparr>running := True\<rparr>) env t = Inl e"
    using raises by simp
  then have loop: "monitoring_loop interval (env # envs) (c1\<lparr>running := True\<rparr>) t
                     = (Raised e, c1\<lparr>running := True\<rparr>, t + busy env)"
    by simp
  show ?thesis
    unfolding start_monitoring_def start prod.case sum.case Let_def loop by simp
qed

lemma start_monitoring_frame_raises:
  assumes raises: "\<forall>t. read_all_sensors c env t = Inl e"
  shows "start_monitoring interval (env # frames) envs c now
           = (Raised e,
              c\<lparr>logger := start_new_log (logger c) log_fields,
                plotter := (plotter c)\<lparr>is_running := True\<rparr>\<rparr>,
              now + busy env)"
proof -
  let ?c0 = "c\<lparr>logger := start_new_log (logger c) log_fields\<rparr>"
  let ?c1 = "?c0\<lparr>plotter := (plotter ?c0)\<lparr>is_running := True\<rparr>\<rparr>"
  have "read_all_sensors ?c1 env now = read_all_sensors c env now"
    by (intro read_all_sensors_same_handles) simp_all
  then have "read_all_sensors ?c1 env now = Inl e"
    using raises by simp
  then have "plotter_start (env # frames) ?c0 now = (Inl e, ?c1, now + busy env)"
    by (simp add: plotter_start_def)
  then show ?thesis
    by (simp add: start_monitoring_def)
qed

section \<open>The monitoring loop\<close>

text \<open>A cycle after which the loop goes on has read, logged, plotted and displayed.\<close>

lemma pending_step:
  assumes "fst (monitoring_loop interval (env # envs) c now) = Pending"
  shows "\<exists>data lg. running c \<and> read_all_sensors c env now = Inr data
           \<and> log_data (logger c) data = Inr lg
           \<and> (\<forall>rest. monitoring_loop interval (env # rest) c now
                 = monitoring_loop interval rest
                     (c\<lparr>logger := lg, plotter := add_data_point (plotter c) data\<rparr>)
                     (now + busy env + interval))"
  using assms by (auto simp add: Let_def split: sum.splits if_splits)

lemma monitoring_loop_append:
  "monitoring_loop interval pre c now = (Pending, c', t') \<Longrightarrow>
     monitoring_loop interval (pre @ rest) c now = monitoring_loop interval rest c' t'"
proof (induction pre arbitrary: c now)
  case Nil
  then show ?case by (simp split: if_splits)
next
  case (Cons env pre)
  from Cons.prems have "fst (monitoring_loop interval (env # pre) c now) = Pending"
    by simp
  from pending_step[OF this] obtain data lg where
    step: "\<forall>rest. monitoring_loop interval (env # rest) c now
                 = monitoring_loop interval rest
                     (c\<lparr>logger := lg, plotter := add_data_point (plotter c) data\<rparr>)
                     (now + busy env + interval)"
    by blast
  let ?c = "c\<lparr>logger := lg, plotter := add_data_point (plotter c) data\<rparr>"
  have "monitoring_loop interval pre ?c (now + busy env + interval) = (Pending, c', t')"
    using Cons.prems step[rule_format, of pre] by simp
  from Cons.IH[OF this] show ?case
    using step[rule_format, of "pre @ rest"] by simp
qed

lemma monitoring_loop_pending_keeps:
  "monitoring_loop interval envs c now = (Pending, c', t') \<Longrightarrow>
     dry_mfc c' = dry_mfc c \<and> wet_mfc c' = wet_mfc c \<and> hygrometer c' = hygrometer c
     \<and> t_probe c' = t_probe c \<and> running c'"
proof (induction envs arbitrary: c now)
  case Nil
  then show ?case by (simp split: if_splits)
next
  case (Cons env envs)
  from Cons.prems have "fst (monitoring_loop interval (env # envs) c now) = Pending"
    by simp
  from pending_step[OF this] obtain data lg where
    step: "\<forall>rest. monitoring_loop interval (env # rest) c now
                 = monitoring_loop interval rest
                     (c\<lparr>logger := lg, plotter := add_data_point (plotter c) data\<rparr>)
                     (now + busy env + interval)"
    by blast
  let ?c = "c\<lparr>logger := lg, plotter := add_data_point (plotter c) data\<rparr>"
  have "monitoring_loop interval envs ?c (now + busy env + interval) = (Pending, c', t')"
    using Cons.prems step[rule_format, of envs] by simp
  from Cons.IH[OF this] show ?case by simp
qed

text \<open>
  When \<^verbatim>\<open>start_monitoring\<close> is at the top of a cycle, the plotter has started without an
  exception, the loop has run from the time the frames have taken, and the \<^verbatim>\<open>finally\<close>
  block has not run.
\<close>

lemma start_monitoring_pending:
  assumes "fst (start_monitoring interval frames envs c now) = Pending"
  shows "\<exists>u c1 c2 t2.
           plotter_start frames (c\<lparr>logger := start_new_log (logger c) log_fields\<rparr>) now
             = (Inr u, c1, now + sum_list (map busy frames))
         \<and> monitoring_loop interval envs (c1\<lparr>running := True\<rparr>)
               (now + sum_list (map busy frames)) = (Pending, c2, t2)
         \<and> start_monitoring interval frames envs c now = (Pending, c2, t2)"
proof -
  let ?c0 = "c\<lparr>logger := start_new_log (logger c) log_fields\<rparr>"
  obtain r c1 t where s: "plotter_start frames ?c0 now = (r, c1, t)"
    by (cases "plotter_start frames ?c0 now") auto
  show ?thesis
  proof (cases r)
    case (Inl e)
    with assms s show ?thesis
      by (simp add: start_monitoring_def)
  next
    case (Inr u)
    have t: "t = now + sum_list (map busy frames)"
      using s Inr plotter_frames_time[of frames _ now u c1 t] by (simp add: plotter_start_def)
    obtain r' c2 t' where l: "monitoring_loop interval envs (c1\<lparr>running := True\<rparr>) t = (r', c2, t')"
      by (cases "monitoring_loop interval envs (c1\<lparr>running := True\<rparr>) t") auto
    have sm: "start_monitoring interval frames envs c now
                = (if r' = Pending then (Pending, c2, t')
                   else if r' = Raised KeyboardInterrupt then (Exited, finally_block c2, t')
                   else (r', finally_block c2, t'))"
      unfolding start_monitoring_def s Inr prod.case sum.case l Let_def ..
    have "r' = Pending"
      using assms unfolding sm by (auto split: if_splits)
    then show ?thesis
      using s Inr l sm t by simp
  qed
qed

text \<open>A read that raises in a cycle of the loop, after any number of cycles.\<close>

lemma start_monitoring_later_cycle_raises:
  assumes pending: "fst (start_monitoring interval frames pre c now) = Pending"
    and raises: "\<forall>t. read_all_sensors c env t = Inl e"
  shows "\<exists>t. start_monitoring interval frames (pre @ env # envs) c now
           = (if e = KeyboardInterrupt then Exited else Raised e,
              finally_block (fst (snd (start_monitoring interval frames pre c now))), t)"
proof -
  from start_monitoring_pending[OF pending] obtain u c1 c2 t2 where
    s: "plotter_start frames (c\<lparr>logger := start_new_log (logger c) log_fields\<rparr>) now
          = (Inr u, c1, now + sum_list (map busy frames))" and
    l: "monitoring_loop interval pre (c1\<lparr>running := True\<rparr>)
          (now + sum_list (map busy frames)) = (Pending, c2, t2)" and
    sm: "start_monitoring interval frames pre c now = (Pending, c2, t2)"
    by blast
  have k2: "dry_mfc c2 = dry_mfc c \<and> wet_mfc c2 = wet_mfc c \<and> hygrometer c2 = hygrometer c
              \<and> t_probe c2 = t_probe c \<and> running c2"
    using monitoring_loop_pending_keeps[OF l] plotter_start_keeps[OF s] by simp
  then have "read_all_sensors c2 env t2 = read_all_sensors c env t2"
    by (intro read_all_sensors_same_handles) simp_all
  then have "read_all_sensors c2 env t2 = Inl e"
    using raises by simp
  then have "monitoring_loop interval (env # envs) c2 t2 = (Raised e, c2, t2 + busy env)"
    using k2 by simp
  then have loop: "monitoring_loop interval (pre @ env # envs) (c1\<lparr>running := True\<rparr>)
                     (now + sum_list (map busy frames)) = (Raised e, c2, t2 + busy env)"
    using monitoring_loop_append[OF l, of "env # envs"] by simp
  have "start_monitoring interval frames (pre @ env # envs) c now
          = (if e = KeyboardInterrupt then Exited else Raised e, finally_block c2, t2 + busy env)"
    unfolding start_monitoring_def s prod.case sum.case Let_def loop by simp
  then show ?thesis
    using sm by simp
qed

lemmas run_defs = start_monitoring_def plotter_start_def log_data_def start_new_log_def
  log_fields_def add_data_point_def display_def Let_def

text \<open>
  The claim C1 fails where the dry-air controller does not answer in a monitoring cycle:
  \<^verbatim>\<open>read_all_sensors\<close> raises instead of returning a Reading, the exception leaves
  \<^verbatim>\<open>start_monitoring\<close>, and nothing is logged although a healthy cycle would follow. The
  one point plotted is that of the plotter's initial frame.
\<close>

theorem read_failure_counterexample:
  "read_all_sensors lab_mfc dry_timeout 1 = Inl ModbusError
   \<and> fst (start_monitoring 5 [ok_cycle] [dry_timeout, ok_cycle] lab_mfc 0) = Raised ModbusError
   \<and> rows (logger (fst (snd (start_monitoring 5 [ok_cycle] [dry_timeout, ok_cycle] lab_mfc 0))))
       = []
   \<and> map timestamp
       (points (plotter (fst (snd (start_monitoring 5 [ok_cycle] [dry_timeout, ok_cycle] lab_mfc 0)))))
       = [0]"
proof -
  have r: "\<forall>t. read_all_sensors lab_mfc dry_timeout t = Inl ModbusError"
    by (simp add: read_defs lab_mfc_handles dry_timeout_def ok_cycle_def)
  have s: "plotter_start [ok_cycle] (lab_mfc\<lparr>logger := start_new_log (logger lab_mfc) log_fields\<rparr>) 0
             = (Inr (),
                lab_mfc\<lparr>logger := start_new_log (logger lab_mfc) log_fields,
                        plotter := \<lparr>max_points = 500,
                          points = [\<lparr>timestamp = 0, dry_flow = PyFloat (F32 0x41200000),
                            dry_setpoint = PyFloat (F32 0x41200000),
                            wet_flow = PyFloat (F32 0x41200000),
                            wet_setpoint = PyFloat (F32 0x41200000), cell_temp = PyNone,
                            ambient_temp = PyNone, dewpoint_temp = PyNone,
                            relative_humidity = PyNone\<rparr>],
                          is_running = True\<rparr>\<rparr>, 1)"
    by (simp add: plotter_start_def read_defs lab_mfc_handles ok_cycle_def add_data_point_def)
  show ?thesis
    unfolding start_monitoring_cycle_raises[OF s r] using r
    by (simp add: finally_block_def start_new_log_def lab_mfc_handles)
qed

text \<open>
  C1, amended. During monitoring, a read that raises (a configured flow controller's or
  the configured hygrometer's call raises, or a probe is set) is not contained: the
  exception leaves \<^verbatim>\<open>read_all_sensors\<close>, whatever the time, so that no Reading is assembled.
  When this happens in a cycle of the loop, after any number of cycles, nothing is logged
  or plotted for that cycle, no later cycle runs, and the exception leaves
  \<^verbatim>\<open>start_monitoring\<close> (KeyboardInterrupt alone is handled: the function then returns)
  after the \<^verbatim>\<open>finally\<close> block has cleared \<open>running\<close> and stopped the plotter; what was
  logged and plotted before is kept. When it happens in the frame the plotter draws while
  it starts, before the \<^verbatim>\<open>try\<close> block, the exception leaves \<^verbatim>\<open>start_monitoring\<close> at
  once: nothing is logged or plotted, \<open>running\<close> is not set, and the plotter is left
  running.
\<close>

theorem read_failure_ends_monitoring:
  assumes "read_fails c env"
  shows "\<exists>e. (\<forall>t. read_all_sensors c env t = Inl e)
     \<and> (fst (start_monitoring interval frames pre c now) = Pending \<longrightarrow>
           fst (start_monitoring interval frames (pre @ env # envs) c now)
             = (if e = KeyboardInterrupt then Exited else Raised e)
         \<and> rows (logger (fst (snd (start_monitoring interval frames (pre @ env # envs) c now))))
             = rows (logger (fst (snd (start_monitoring interval frames pre c now))))
         \<and> points (plotter (fst (snd (start_monitoring interval frames (pre @ env # envs) c now))))
             = points (plotter (fst (snd (start_monitoring interval frames pre c now))))
         \<and> \<not> running (fst (snd (start_monitoring interval frames (pre @ env # envs) c now)))
         \<and> \<not> is_running
               (plotter (fst (snd (start_monitoring interval frames (pre @ env # envs) c now)))))
     \<and> fst (start_monitoring interval (env # frames) envs c now) = Raised e
     \<and> rows (logger (fst (snd (start_monitoring interval (env # frames) envs c now))))
         = rows (logger c)
     \<and> points (plotter (fst (snd (start_monitoring interval (env # frames) envs c now))))
         = points (plotter c)
     \<and> running (fst (snd (start_monitoring interval (env # frames) envs c now))) = running c
     \<and> is_running (plotter (fst (snd (start_monitoring interval (env # frames) envs c now))))"
proof -
  from read_fails_raises[OF assms] obtain e where e: "\<forall>t. read_all_sensors c env t = Inl e"
    by blast
  have cycle: "fst (start_monitoring interval frames (pre @ env # envs) c now)
             = (if e = KeyboardInterrupt then Exited else Raised e)
         \<and> rows (logger (fst (snd (start_monitoring interval frames (pre @ env # envs) c now))))
             = rows (logger (fst (snd (start_monitoring interval frames pre c now))))
         \<and> points (plotter (fst (snd (start_monitoring interval frames (pre @ env # envs) c now))))
             = points (plotter (fst (snd (start_monitoring interval frames pre c now))))
         \<and> \<not> running (fst (snd (start_monitoring interval frames (pre @ env # envs) c now)))
         \<and> \<not> is_running
               (plotter (fst (snd (start_monitoring interval frames (pre @ env # envs) c now))))"
    if p: "fst (start_monitoring interval frames pre c now) = Pending"
  proof -
    from start_monitoring_later_cycle_raises[OF p e, of envs] obtain t where
      "start_monitoring interval frames (pre @ env # envs) c now
         = (if e = KeyboardInterrupt then Exited else Raised e,
            finally_block (fst (snd (start_monitoring interval frames pre c now))), t)"
      by blast
    then show ?thesis
      by (simp add: finally_block_def)
  qed
  have frame: "fst (start_monitoring interval (env # frames) envs c now) = Raised e
     \<and> rows (logger (fst (snd (start_monitoring interval (env # frames) envs c now))))
         = rows (logger c)
     \<and> points (plotter (fst (snd (start_monitoring interval (env # frames) envs c now))))
         = points (plotter c)
     \<and> running (fst (snd (start_monitoring interval (env # frames) envs c now))) = running c
     \<and> is_running (plotter (fst (snd (start_monitoring interval (env # frames) envs c now))))"
    unfolding start_monitoring_frame_raises[OF e]
    by (simp add: start_new_log_def)
  from e cycle frame show ?thesis by blast
qed

text \<open>
  An instance: the wet-air controller does not answer, in the first cycle after a healthy
  initial frame, and in the initial frame itself.
\<close>

theorem read_failure_ends_monitoring_witness:
  "read_fails lab_mfc wet_timeout
   \<and> fst (start_monitoring 5 [ok_cycle] [] lab_mfc 0) = Pending
   \<and> read_all_sensors lab_mfc wet_timeout 1 = Inl ModbusError
   \<and> fst (start_monitoring 5 [ok_cycle] [wet_timeout, ok_cycle] lab_mfc 0) = Raised ModbusError
   \<and> rows (logger (fst (snd (start_monitoring 5 [ok_cycle] [wet_timeout, ok_cycle] lab_mfc 0))))
       = []
   \<and> \<not> running (fst (snd (start_monitoring 5 [ok_cycle] [wet_timeout, ok_cycle] lab_mfc 0)))
   \<and> \<not> is_running
         (plotter (fst (snd (start_monitoring 5 [ok_cycle] [wet_timeout, ok_cycle] lab_mfc 0))))
   \<and> fst (start_monitoring 5 [wet_timeout, ok_cycle] [ok_cycle] lab_mfc 0) = Raised ModbusError
   \<and> points (plotter (fst (snd (start_monitoring 5 [wet_timeout, ok_cycle] [ok_cycle] lab_mfc 0))))
       = []
   \<and> is_running
         (plotter (fst (snd (start_monitoring 5 [wet_timeout, ok_cycle] [ok_cycle] lab_mfc 0))))"
proof -
  have h: "read_fails lab_mfc wet_timeout"
    by (simp add: read_fails_def mfc_read_fails_def lab_mfc_handles wet_timeout_def ok_cycle_def
          read_defs)
  have r: "read_all_sensors lab_mfc wet_timeout 1 = Inl ModbusError"
    by (simp add: read_defs lab_mfc_handles wet_timeout_def ok_cycle_def)
  have p: "fst (start_monitoring 5 [ok_cycle] [] lab_mfc 0) = Pending"
    and before: "rows (logger (fst (snd (start_monitoring 5 [ok_cycle] [] lab_mfc 0)))) = []"
    by (simp_all add: run_defs read_defs lab_mfc_handles ok_cycle_def)
  from read_failure_ends_monitoring[OF h,
      where frames = "[ok_cycle]" and now = 0 and interval = 5 and envs = "[ok_cycle]"
        and pre = "[]"]
  obtain e where e: "\<forall>t. read_all_sensors lab_mfc wet_timeout t = Inl e"
    and cycle: "fst (start_monitoring 5 [ok_cycle] [] lab_mfc 0) = Pending \<longrightarrow>
           fst (start_monitoring 5 [ok_cycle] ([] @ wet_timeout # [ok_cycle]) lab_mfc 0)
             = (if e = KeyboardInterrupt then Exited else Raised e)
         \<and> rows (logger (fst (snd (start_monitoring 5 [ok_cycle] ([] @ wet_timeout # [ok_cycle]) lab_mfc 0))))
             = rows (logger (fst (snd (start_monitoring 5 [ok_cycle] [] lab_mfc 0))))
         \<and> points (plotter (fst (snd (start_monitoring 5 [ok_cycle] ([] @ wet_timeout # [ok_cycle]) lab_mfc 0))))
             = points (plotter (fst (snd (start_monitoring 5 [ok_cycle] [] lab_mfc 0))))
         \<and> \<not> running (fst (snd (start_monitoring 5 [ok_cycle] ([] @ wet_timeout # [ok_cycle]) lab_mfc 0)))
         \<and> \<not> is_running
               (plotter (fst (snd (start_monitoring 5 [ok_cycle] ([] @ wet_timeout # [ok_cycle]) lab_mfc 0))))"
    and frame: "fst (start_monitoring 5 [wet_timeout, ok_cycle] [ok_cycle] lab_mfc 0) = Raised e"
      "points (plotter (fst (snd (start_monitoring 5 [wet_timeout, ok_cycle] [ok_cycle] lab_mfc 0))))
         = points (plotter lab_mfc)"
      "is_running (plotter (fst (snd (start_monitoring 5 [wet_timeout, ok_cycle] [ok_cycle] lab_mfc 0))))"
    by (elim exE conjE) (rule that, assumption+)
  have "e = ModbusError"
    using e r by simp
  then show ?thesis
    using h r p before cycle frame by (simp add: lab_mfc_handles)
qed

section \<open>A device that is configured but not connected\<close>

text \<open>
  C7. With the configuration of config.py and the port of the wet-air controller failing
  to open, \<^verbatim>\<open>connect_devices\<close> reports the failure, returns False and keeps the handle of
  the controller, whose instrument is None. In the next call of \<^verbatim>\<open>read_all_sensors\<close> the
  dry-air block fills its two channels, and the wet-air block, which tests the handle
  only, reads the controller and raises AttributeError on the missing instrument: the call
  returns no Reading, where the claim has one with the wet channels None.
\<close>

theorem disconnected_device_raises:
  "snd (connect_devices \<lparr>port_opens = (\<lambda>p. p \<noteq> CStr ''/dev/ttyS4''), probe_connect = Inr True\<rparr>
         (new_controller main_config 500))
     = ([Connecting DryMFC, ConnectOK DryMFC, Connecting WetMFC, ConnectFailed WetMFC,
         Connecting Hygrometer, ConnectOK Hygrometer], Inr False)
   \<and> wet_mfc lab_wet_down = Some \<lparr>mfc_port = CStr ''/dev/ttyS4'', mfc_address = CInt 2,
                                  mfc_name = ''Wet Air MFC'', instrument = False\<rparr>
   \<and> read_dry_mfc lab_wet_down ok_cycle (fresh_data 0)
       = Inr \<lparr>timestamp = 0, dry_flow = PyFloat (F32 0x41200000),
              dry_setpoint = PyFloat (F32 0x41200000), wet_flow = PyNone,
              wet_setpoint = PyNone, cell_temp = PyNone, ambient_temp = PyNone,
              dewpoint_temp = PyNone, relative_humidity = PyNone\<rparr>
   \<and> read_wet_mfc lab_wet_down ok_cycle
         \<lparr>timestamp = 0, dry_flow = PyFloat (F32 0x41200000),
          dry_setpoint = PyFloat (F32 0x41200000), wet_flow = PyNone,
          wet_setpoint = PyNone, cell_temp = PyNone, ambient_temp = PyNone,
          dewpoint_temp = PyNone, relative_humidity = PyNone\<rparr>
       = Inl AttributeError
   \<and> read_all_sensors lab_wet_down ok_cycle 0 = Inl AttributeError"
proof -
  have "snd (connect_devices
          \<lparr>port_opens = (\<lambda>p. p \<noteq> CStr ''/dev/ttyS4''), probe_connect = Inr True\<rparr>
          (new_controller main_config 500))
     = ([Connecting DryMFC, ConnectOK DryMFC, Connecting WetMFC, ConnectFailed WetMFC,
         Connecting Hygrometer, ConnectOK Hygrometer], Inr False)"
    by (simp add: main_config_def connect_defs)
  then show ?thesis
    by (simp add: read_defs lab_wet_down_handles ok_cycle_def)
qed

section \<open>What a returned Reading holds\<close>

lemma read_dry_mfc_result:
  assumes "read_dry_mfc c env d = Inr d'"
  shows "timestamp d' = timestamp d \<and> wet_flow d' = wet_flow d \<and> wet_setpoint d' = wet_setpoint d
       \<and> cell_temp d' = cell_temp d \<and> ambient_temp d' = ambient_temp d
       \<and> dewpoint_temp d' = dewpoint_temp d \<and> relative_humidity d' = relative_humidity d
       \<and> (dry_mfc c = None \<longrightarrow> dry_flow d' = dry_flow d \<and> dry_setpoint d' = dry_setpoint d)
       \<and> (\<forall>m. dry_mfc c = Some m \<longrightarrow>
             map_sum id PyFloat (VogtlinMFC_get_flow m (dry_bus env)) = Inr (dry_flow d')
           \<and> map_sum id PyFloat (VogtlinMFC_get_setpoint m (dry_bus env)) = Inr (dry_setpoint d'))"
  using assms by (auto simp add: read_dry_mfc_def split: option.splits sum.splits)

lemma read_wet_mfc_result:
  assumes "read_wet_mfc c env d = Inr d'"
  shows "timestamp d' = timestamp d \<and> dry_flow d' = dry_flow d \<and> dry_setpoint d' = dry_setpoint d
       \<and> cell_temp d' = cell_temp d \<and> ambient_temp d' = ambient_temp d
       \<and> dewpoint_temp d' = dewpoint_temp d \<and> relative_humidity d' = relative_humidity d
       \<and> (wet_mfc c = None \<longrightarrow> wet_flow d' = wet_flow d \<and> wet_setpoint d' = wet_setpoint d)
       \<and> (\<forall>m. wet_mfc c = Some m \<longrightarrow>
             map_sum id PyFloat (VogtlinMFC_get_flow m (wet_bus env)) = Inr (wet_flow d')
           \<and> map_sum id PyFloat (VogtlinMFC_get_setpoint m (wet_bus env)) = Inr (wet_setpoint d'))"
  using assms by (auto simp add: read_wet_mfc_def split: option.splits sum.splits)

lemma read_hygrometer_result:
  assumes "read_hygrometer c env d = Inr d'"
  shows "timestamp d' = timestamp d \<and> dry_flow d' = dry_flow d \<and> dry_setpoint d' = dry_setpoint d
       \<and> wet_flow d' = wet_flow d \<and> wet_setpoint d' = wet_setpoint d \<and> cell_temp d' = cell_temp d
       \<and> (hygrometer c = None \<or> get_readings env = Inr None \<or> get_readings env = Inr (Some [])
            \<longrightarrow> ambient_temp d' = ambient_temp d \<and> dewpoint_temp d' = dewpoint_temp d
                \<and> relative_humidity d' = relative_humidity d)
       \<and> (\<forall>r. hygrometer c \<noteq> None \<and> get_readings env = Inr (Some r) \<and> r \<noteq> [] \<longrightarrow>
             ambient_temp d' = dict_get r ''ambient_temp''
           \<and> dewpoint_temp d' = dict_get r ''dewpoint_temp''
           \<and> relative_humidity d' = dict_get r ''relative_humidity'')"
  using assms by (auto simp add: read_hygrometer_def split: option.splits sum.splits if_splits)

lemma read_all_sensors_steps:
  assumes "read_all_sensors c env now = Inr data"
  shows "\<exists>d1 d2. read_dry_mfc c env (fresh_data now) = Inr d1 \<and> read_wet_mfc c env d1 = Inr d2
           \<and> read_hygrometer c env d2 = Inr data"
  using assms
  by (auto simp add: read_all_sensors_def read_t_probe_cases split: sum.splits if_splits)

text \<open>
  \<^verbatim>\<open>read_all_sensors\<close> starts each Reading from a fresh record of None channels and
  returns it whenever no read of the cycle raises. In that Reading the time stamp is the
  current one, the channels of a device that is not configured are None, so are the
  hygrometer channels when its call returned nothing, the cell temperature is None, and
  every other channel is the value its device returned in this very call.
\<close>

lemma reading_channels:
  assumes "\<not> read_fails c env"
  shows "\<exists>data. read_all_sensors c env now = Inr data
      \<and> timestamp data = now \<and> cell_temp data = PyNone
      \<and> (dry_mfc c = None \<longrightarrow> dry_flow data = PyNone \<and> dry_setpoint data = PyNone)
      \<and> (wet_mfc c = None \<longrightarrow> wet_flow data = PyNone \<and> wet_setpoint data = PyNone)
      \<and> (hygrometer c = None \<or> get_readings env = Inr None \<or> get_readings env = Inr (Some [])
           \<longrightarrow> ambient_temp data = PyNone \<and> dewpoint_temp data = PyNone
               \<and> relative_humidity data = PyNone)
      \<and> (\<forall>m. dry_mfc c = Some m \<longrightarrow>
             map_sum id PyFloat (VogtlinMFC_get_flow m (dry_bus env)) = Inr (dry_flow data)
           \<and> map_sum id PyFloat (VogtlinMFC_get_setpoint m (dry_bus env)) = Inr (dry_setpoint data))
      \<and> (\<forall>m. wet_mfc c = Some m \<longrightarrow>
             map_sum id PyFloat (VogtlinMFC_get_flow m (wet_bus env)) = Inr (wet_flow data)
           \<and> map_sum id PyFloat (VogtlinMFC_get_setpoint m (wet_bus env)) = Inr (wet_setpoint data))
      \<and> (\<forall>r. hygrometer c \<noteq> None \<and> get_readings env = Inr (Some r) \<and> r \<noteq> [] \<longrightarrow>
             ambient_temp data = dict_get r ''ambient_temp''
           \<and> dewpoint_temp data = dict_get r ''dewpoint_temp''
           \<and> relative_humidity data = dict_get r ''relative_humidity'')"
proof -
  from assms obtain data where data: "read_all_sensors c env now = Inr data"
    using isl_read_all_sensors[of c env now] by (cases "read_all_sensors c env now") auto
  from read_all_sensors_steps[OF data] obtain d1 d2 where
    s1: "read_dry_mfc c env (fresh_data now) = Inr d1" and
    s2: "read_wet_mfc c env d1 = Inr d2" and
    s3: "read_hygrometer c env d2 = Inr data"
    by blast
  note r1 = read_dry_mfc_result[OF s1]
  note r2 = read_wet_mfc_result[OF s2]
  note r3 = read_hygrometer_result[OF s3]
  have f: "timestamp (fresh_data now) = now" "dry_flow (fresh_data now) = PyNone"
    "dry_setpoint (fresh_data now) = PyNone" "wet_flow (fresh_data now) = PyNone"
    "wet_setpoint (fresh_data now) = PyNone" "cell_temp (fresh_data now) = PyNone"
    "ambient_temp (fresh_data now) = PyNone" "dewpoint_temp (fresh_data now) = PyNone"
    "relative_humidity (fresh_data now) = PyNone"
    by (simp_all add: fresh_data_def)
  have "timestamp data = now" "cell_temp data = PyNone"
    using r1 r2 r3 f by simp_all
  moreover have "dry_mfc c = None \<longrightarrow> dry_flow data = PyNone \<and> dry_setpoint data = PyNone"
    using r1 r2 r3 f by simp
  moreover have "wet_mfc c = None \<longrightarrow> wet_flow data = PyNone \<and> wet_setpoint data = PyNone"
    using r1 r2 r3 f by simp
  moreover have "hygrometer c = None \<or> get_readings env = Inr None \<or> get_readings env = Inr (Some [])
           \<longrightarrow> ambient_temp data = PyNone \<and> dewpoint_temp data = PyNone
               \<and> relative_humidity data = PyNone"
    using r1 r2 r3 f by simp
  moreover have "\<forall>m. dry_mfc c = Some m \<longrightarrow>
             map_sum id PyFloat (VogtlinMFC_get_flow m (dry_bus env)) = Inr (dry_flow data)
           \<and> map_sum id PyFloat (VogtlinMFC_get_setpoint m (dry_bus env)) = Inr (dry_setpoint data)"
    using r1 r2 r3 by simp
  moreover have "\<forall>m. wet_mfc c = Some m \<longrightarrow>
             map_sum id PyFloat (VogtlinMFC_get_flow m (wet_bus env)) = Inr (wet_flow data)
           \<and> map_sum id PyFloat (VogtlinMFC_get_setpoint m (wet_bus env)) = Inr (wet_setpoint data)"
    using r2 r3 by simp
  moreover have "\<forall>r. hygrometer c \<noteq> None \<and> get_readings env = Inr (Some r) \<and> r \<noteq> [] \<longrightarrow>
             ambient_temp data = dict_get r ''ambient_temp''
           \<and> dewpoint_temp data = dict_get r ''dewpoint_temp''
           \<and> relative_humidity data = dict_get r ''relative_humidity''"
    using r3 by simp
  ultimately show ?thesis
    using data by - (rule exI[of _ data], intro conjI, assumption+)
qed

section \<open>The probe block\<close>

text \<open>
  The claim C10 fails in a call in which an earlier read raises: with a probe set and the
  dry-air controller not answering, the exception is the one of the Modbus read, not
  AttributeError.
\<close>

theorem probe_read_counterexample:
  "t_probe lab_probe \<noteq> None \<and> read_all_sensors lab_probe dry_timeout 0 = Inl ModbusError"
  by (simp add: read_defs lab_probe_handles dry_timeout_def ok_cycle_def)

text \<open>
  C10, amended. Whenever \<^verbatim>\<open>self.t_probe\<close> is set, every call of \<^verbatim>\<open>read_all_sensors\<close>
  raises, so that no Reading is ever produced and the cell temperature is never
  populated; the exception is the AttributeError of the lookup of \<^verbatim>\<open>self.T_probe\<close>
  whenever the reads before it (both flow controllers, the hygrometer) have returned.
\<close>

theorem probe_read_raises:
  assumes "t_probe c \<noteq> None"
  shows "(\<exists>e. read_all_sensors c env now = Inl e)
       \<and> (\<not> mfc_read_fails (dry_mfc c) (dry_bus env) \<and> \<not> mfc_read_fails (wet_mfc c) (wet_bus env)
            \<and> \<not> (hygrometer c \<noteq> None \<and> isl (get_readings env))
          \<longrightarrow> read_all_sensors c env now = Inl AttributeError)"
proof -
  have "read_fails c env"
    using assms by (simp add: read_fails_def)
  then have "\<exists>e. read_all_sensors c env now = Inl e"
    using isl_read_all_sensors[of c env now] by (cases "read_all_sensors c env now") auto
  moreover have "read_all_sensors c env now = Inl AttributeError"
    if "\<not> mfc_read_fails (dry_mfc c) (dry_bus env)" "\<not> mfc_read_fails (wet_mfc c) (wet_bus env)"
       "\<not> (hygrometer c \<noteq> None \<and> isl (get_readings env))"
    using read_all_sensors_reaches_probe[OF that, of now] assms
    by (auto simp add: read_t_probe_cases)
  ultimately show ?thesis by blast
qed

theorem probe_read_raises_witness:
  "t_probe lab_probe \<noteq> None \<and> read_all_sensors lab_probe ok_cycle 0 = Inl AttributeError"
proof -
  have h: "t_probe lab_probe \<noteq> None"
    by (simp add: lab_probe_handles)
  have "\<not> mfc_read_fails (dry_mfc lab_probe) (dry_bus ok_cycle)"
       "\<not> mfc_read_fails (wet_mfc lab_probe) (wet_bus ok_cycle)"
       "\<not> (hygrometer lab_probe \<noteq> None \<and> isl (get_readings ok_cycle))"
    by (simp_all add: mfc_read_fails_def lab_probe_handles ok_cycle_def answered_read)
  then show ?thesis
    using h probe_read_raises[OF h, of ok_cycle 0] by blast
qed

section \<open>The hygrometer channels\<close>

lemma convert_keys: "convert kvs = Inr d \<Longrightarrow> map fst d = map fst kvs"
  by (induction kvs arbitrary: d) (auto split: sum.splits)

lemma parse_line_keys:
  assumes "parse_line line = Inr (Some ks)"
  shows "map fst ks = group_names"
proof -
  from assms obtain cs where "convert (groupdict cs) = Inr ks"
    by (auto simp add: parse_line_def split: option.splits sum.splits)
  then have "map fst ks = map fst (groupdict cs)"
    by (rule convert_keys)
  then show ?thesis
    by (simp add: groupdict_def comp_def)
qed

lemma poll_scan_keys: "poll_scan lines = Inr (Some ks) \<Longrightarrow> map fst ks = group_names"
proof (induction lines)
  case Nil
  then show ?case by simp
next
  case (Cons line lines)
  show ?case
  proof (cases "parse_line line")
    case (Inl e)
    with Cons.prems show ?thesis by simp
  next
    case (Inr r)
    show ?thesis
    proof (cases r)
      case None
      with Inr Cons show ?thesis by simp
    next
      case (Some d)
      with Inr Cons.prems have "parse_line line = Inr (Some ks)" by simp
      then show ?thesis by (rule parse_line_keys)
    qed
  qed
qed

lemma DewMaster_poll_keys:
  "DewMaster_poll d raw = Inr (Some ks) \<Longrightarrow> map fst ks = group_names"
  by (auto simp add: DewMaster_poll_def split: sum.splits dest: poll_scan_keys)

lemma dict_get_other_key:
  assumes "map fst ks = group_names" and "k \<notin> set group_names"
  shows "dict_get ks k = PyNone"
proof -
  have "k \<notin> fst ` set ks"
    using assms by (metis set_map)
  then have "map_of ks k = None"
    by (simp add: map_of_eq_None_iff)
  then show ?thesis
    by (simp add: dict_get_def)
qed

lemma read_all_sensors_hygrometer_channels:
  assumes "read_all_sensors c env now = Inr data"
  shows "(ambient_temp data = PyNone \<and> dewpoint_temp data = PyNone
            \<and> relative_humidity data = PyNone)
       \<or> (\<exists>r. get_readings env = Inr (Some r)
             \<and> ambient_temp data = dict_get r ''ambient_temp''
             \<and> dewpoint_temp data = dict_get r ''dewpoint_temp''
             \<and> relative_humidity data = dict_get r ''relative_humidity'')"
proof -
  from read_all_sensors_steps[OF assms] obtain d1 d2 where
    s1: "read_dry_mfc c env (fresh_data now) = Inr d1" and
    s2: "read_wet_mfc c env d1 = Inr d2" and
    s3: "read_hygrometer c env d2 = Inr data"
    by blast
  have d2: "ambient_temp d2 = PyNone \<and> dewpoint_temp d2 = PyNone \<and> relative_humidity d2 = PyNone"
    using read_dry_mfc_result[OF s1] read_wet_mfc_result[OF s2] by (simp add: fresh_data_def)
  show ?thesis
    using s3 d2
    by (auto simp add: read_hygrometer_def split: option.splits sum.splits if_splits)
qed

text \<open>
  C9. When the hygrometer call of the cycle returns what \<^verbatim>\<open>poll\<close> returns, the keys of a
  successful poll are \<^verbatim>\<open>date\<close>, \<^verbatim>\<open>time\<close>, \<^verbatim>\<open>dp\<close>, \<^verbatim>\<open>at\<close> and \<^verbatim>\<open>rh\<close>, none of which is a
  key \<^verbatim>\<open>read_all_sensors\<close> looks up; so in every Reading it returns the ambient
  temperature, the dew point and the relative humidity are None, also when a line was
  parsed.
\<close>

theorem hygrometer_keys_never_match:
  assumes "get_readings env = DewMaster_poll d raw"
  shows "(\<forall>ks. DewMaster_poll d raw = Inr (Some ks) \<longrightarrow>
            map fst ks = [''date'', ''time'', ''dp'', ''at'', ''rh''])
       \<and> (\<forall>data. read_all_sensors c env now = Inr data \<longrightarrow>
            ambient_temp data = PyNone \<and> dewpoint_temp data = PyNone
            \<and> relative_humidity data = PyNone)"
proof -
  have keys: "map fst ks = [''date'', ''time'', ''dp'', ''at'', ''rh'']"
    if "DewMaster_poll d raw = Inr (Some ks)" for ks
    using DewMaster_poll_keys[OF that] by (simp add: group_names_def)
  have "ambient_temp data = PyNone \<and> dewpoint_temp data = PyNone
          \<and> relative_humidity data = PyNone"
    if data: "read_all_sensors c env now = Inr data" for data
    using read_all_sensors_hygrometer_channels[OF data]
  proof
    assume "ambient_temp data = PyNone \<and> dewpoint_temp data = PyNone
              \<and> relative_humidity data = PyNone"
    then show ?thesis .
  next
    assume "\<exists>r. get_readings env = Inr (Some r)
             \<and> ambient_temp data = dict_get r ''ambient_temp''
             \<and> dewpoint_temp data = dict_get r ''dewpoint_temp''
             \<and> relative_humidity data = dict_get r ''relative_humidity''"
    then obtain r where r: "get_readings env = Inr (Some r)"
      "ambient_temp data = dict_get r ''ambient_temp''"
      "dewpoint_temp data = dict_get r ''dewpoint_temp''"
      "relative_humidity data = dict_get r ''relative_humidity''"
      by blast
    have "map fst r = group_names"
      using r(1) assms DewMaster_poll_keys[of d raw r] by simp
    then show ?thesis
      using r(2,3,4) by (simp add: dict_get_other_key group_names_def)
  qed
  with keys show ?thesis by blast
qed

lemma poll_manual_line:
  "DewMaster_poll \<lparr>dm_port = CStr ''/dev/ttyS5'', dm_baudrate = CInt 19200, ser = Some True\<rparr>
     [manual_line @ [CHR 0x0D, CHR 0x0A]]
   = Inr (Some [(''date'', PyStr ''11/13/25''), (''time'', PyStr ''13:41:50''),
                (''dp'', PyFloat (Dec 2)), (''at'', PyFloat (Dec (241 / 10))),
                (''rh'', PyFloat (Dec (47 / 2)))])"
  by code_simp

text \<open>
  An instance: the hygrometer sends the line of its manual, the poll parses it, and the
  Reading of that cycle has the flow channels populated and the three hygrometer channels
  None.
\<close>

theorem hygrometer_keys_never_match_witness:
  "get_readings polled_cycle
     = Inr (Some [(''date'', PyStr ''11/13/25''), (''time'', PyStr ''13:41:50''),
                  (''dp'', PyFloat (Dec 2)), (''at'', PyFloat (Dec (241 / 10))),
                  (''rh'', PyFloat (Dec (47 / 2)))])
   \<and> (\<exists>data. read_all_sensors lab polled_cycle 0 = Inr data
         \<and> dry_flow data = PyFloat (F32 0x41200000)
         \<and> ambient_temp data = PyNone \<and> dewpoint_temp data = PyNone
         \<and> relative_humidity data = PyNone)"
proof -
  let ?d = "\<lparr>dm_port = CStr ''/dev/ttyS5'', dm_baudrate = CInt 19200, ser = Some True\<rparr>"
  let ?raw = "[manual_line @ [CHR 0x0D, CHR 0x0A]]"
  have g: "get_readings polled_cycle = DewMaster_poll ?d ?raw"
    by (simp add: polled_cycle_def)
  have nf: "\<not> read_fails lab polled_cycle"
    by (simp add: read_fails_def mfc_read_fails_def lab_handles g poll_manual_line
          polled_cycle_def ok_cycle_def answered_read)
  then obtain data where data: "read_all_sensors lab polled_cycle 0 = Inr data"
    using isl_read_all_sensors[of lab polled_cycle 0]
    by (cases "read_all_sensors lab polled_cycle 0") auto
  from read_all_sensors_steps[OF data] obtain d1 d2 where
    s1: "read_dry_mfc lab polled_cycle (fresh_data 0) = Inr d1" and
    s2: "read_wet_mfc lab polled_cycle d1 = Inr d2" and
    s3: "read_hygrometer lab polled_cycle d2 = Inr data"
    by blast
  have "dry_flow data = PyFloat (F32 0x41200000)"
    using read_dry_mfc_result[OF s1] read_wet_mfc_result[OF s2] read_hygrometer_result[OF s3]
    by (auto simp add: lab_handles polled_cycle_def ok_cycle_def answered_read)
  moreover have "ambient_temp data = PyNone \<and> dewpoint_temp data = PyNone
         \<and> relative_humidity data = PyNone"
    using hygrometer_keys_never_match[OF g, of lab 0] data by blast
  ultimately show ?thesis
    using data g poll_manual_line by simp
qed

section \<open>The time between two cycles\<close>










end
